theory Spec2Isabelle
  imports Complex_Main
begin

section \<open>ParkiLite: data model (models.py)\<close>

text \<open>
  The four tables of \<^verbatim>\<open>models.py\<close> are records. The selectors carry the name of the
  column; because the column \<^verbatim>\<open>id\<close> (and \<^verbatim>\<open>user_id\<close>) occurs in several tables, and
  \<open>id\<close> is a constant of HOL, the selector is prefixed with the table
  (\<open>user_id\<close> is \<^verbatim>\<open>User.id\<close>, \<open>session_user_id\<close> is \<^verbatim>\<open>ParkingSession.user_id\<close>, ...).

  Python \<^verbatim>\<open>int\<close> is \<open>int\<close>. A Python \<^verbatim>\<open>float\<close> (balance, rate, cost, amount) is
  modelled as an exact rational number: comparisons and the control flow are those of
  the code, while the rounding of IEEE doubles, infinities and NaN are not represented.
  A \<^verbatim>\<open>datetime\<close> is the number of microseconds on the naive local clock (the resolution
  of Python's \<^verbatim>\<open>datetime\<close>), so that the difference of two of them is the \<^verbatim>\<open>timedelta\<close>
  in microseconds.
\<close>

type_synonym datetime = int
type_synonym timedelta = int

record user =
  user_id :: int
  email :: string
  api_key :: string
  balance :: rat

record zone =
  zone_id :: int
  name :: string
  rate_per_min :: rat
  max_minutes :: int

record vehicle =
  vehicle_id :: int
  vehicle_user_id :: int
  plate :: string

record parking_session =
  session_id :: int
  session_user_id :: int
  session_vehicle_id :: int
  session_zone_id :: int
  started_at :: datetime
  ended_at :: "datetime option"
  minutes :: "int option"
  cost :: "rat option"
  status :: string

text \<open>\<^verbatim>\<open>SessionResponse\<close>: the view of a session that the endpoints return.\<close>

record session_response =
  resp_id :: int
  resp_user_id :: int
  resp_vehicle_id :: int
  resp_zone_id :: int
  resp_started_at :: datetime
  resp_ended_at :: "datetime option"
  resp_minutes :: "int option"
  resp_cost :: "rat option"
  resp_status :: string
  resp_cost_total :: "rat option"

section \<open>The store (database.py)\<close>

text \<open>
  The database is a record of the four tables, each a list of rows in insertion order.
  A request works on one SQLAlchemy session and commits once, at its end; a request that
  raises before its commit leaves the database as it was. So an endpoint is a function
  from the store to either an error or its response together with the committed store.
\<close>

record store =
  users :: "user list"
  zones :: "zone list"
  vehicles :: "vehicle list"
  parking_sessions :: "parking_session list"

text \<open>\<^verbatim>\<open>seed_data\<close> on an empty database: the demo user and the zones A and B.\<close>

definition seed_data :: store where
  "seed_data =
     \<lparr>users = [\<lparr>user_id = 1, email = ''demo@iberopuebla.mx'', api_key = ''testkey'',
                 balance = 300\<rparr>],
      zones = [\<lparr>zone_id = 1, name = ''A'', rate_per_min = 3 / 2, max_minutes = 120\<rparr>,
               \<lparr>zone_id = 2, name = ''B'', rate_per_min = 1, max_minutes = 180\<rparr>],
      vehicles = [],
      parking_sessions = []\<rparr>"

text \<open>\<^verbatim>\<open>session.exec(select(T).where(P)).first()\<close>: the first row that satisfies \<open>P\<close>.\<close>

definition first :: "'a list \<Rightarrow> 'a option" where
  "first rows = (case rows of [] \<Rightarrow> None | r # _ \<Rightarrow> Some r)"

text \<open>\<^verbatim>\<open>session.get(T, key)\<close>: the row with that primary key, or \<^verbatim>\<open>None\<close>.\<close>

definition get_zone :: "store \<Rightarrow> int \<Rightarrow> zone option" where
  "get_zone db k = first (filter (\<lambda>z. zone_id z = k) (zones db))"

definition get_parking_session :: "store \<Rightarrow> int \<Rightarrow> parking_session option" where
  "get_parking_session db k = first (filter (\<lambda>p. session_id p = k) (parking_sessions db))"

text \<open>
  The primary key that SQLite gives to an inserted row (\<^verbatim>\<open>INTEGER PRIMARY KEY\<close>): one more
  than the largest key of the table, and 1 for the empty table.
\<close>

definition next_id :: "int list \<Rightarrow> int" where
  "next_id ks = (if ks = [] then 1 else Max (set ks) + 1)"

section \<open>Errors\<close>

text \<open>
  One constructor for each \<^verbatim>\<open>raise HTTPException\<close> of \<^verbatim>\<open>main.py\<close>, in the order of the file,
  and two for the failures that the framework and the interpreter produce:
  \<open>RequestValidationError\<close> (FastAPI: a required parameter is missing) and
  \<open>AttributeError\<close> (an attribute read on an object that does not have it).
\<close>

datatype error =
    ApiKeyRequired
  | ApiKeyInvalid
  | VehicleExists
  | VehicleNotFound
  | ActiveSessionExists
  | ZoneNotFound
  | SessionNotFound
  | StopForbidden
  | SessionFinalized
  | ViewSessionNotFound
  | ViewForbidden
  | NonPositiveAmount
  | RequestValidationError
  | AttributeError

fun status_code :: "error \<Rightarrow> nat" where
  "status_code ApiKeyRequired = 401"
| "status_code ApiKeyInvalid = 401"
| "status_code VehicleExists = 409"
| "status_code VehicleNotFound = 404"
| "status_code ActiveSessionExists = 409"
| "status_code ZoneNotFound = 404"
| "status_code SessionNotFound = 404"
| "status_code StopForbidden = 403"
| "status_code SessionFinalized = 422"
| "status_code ViewSessionNotFound = 404"
| "status_code ViewForbidden = 403"
| "status_code NonPositiveAmount = 422"
| "status_code RequestValidationError = 422"
| "status_code AttributeError = 500"

section \<open>The endpoints (main.py)\<close>

subsection \<open>Authentication\<close>

definition get_current_user :: "store \<Rightarrow> string \<Rightarrow> error + user" where
  "get_current_user db x_api_key =
     (if x_api_key = [] then Inl ApiKeyRequired
      else case first (filter (\<lambda>u. api_key u = x_api_key) (users db)) of
             None \<Rightarrow> Inl ApiKeyInvalid
           | Some u \<Rightarrow> Inr u)"

subsection \<open>Vehicles\<close>

definition create_vehicle :: "store \<Rightarrow> user \<Rightarrow> string \<Rightarrow> error + vehicle \<times> store" where
  "create_vehicle db current_user vplate =
     (case first (filter (\<lambda>v. vehicle_user_id v = user_id current_user \<and> plate v = vplate)
                         (vehicles db)) of
        Some existing \<Rightarrow> Inl VehicleExists
      | None \<Rightarrow>
          let v = \<lparr>vehicle_id = next_id (map vehicle_id (vehicles db)),
                   vehicle_user_id = user_id current_user,
                   plate = vplate\<rparr>
          in Inr (v, db\<lparr>vehicles := vehicles db @ [v]\<rparr>))"

definition get_vehicles :: "store \<Rightarrow> user \<Rightarrow> vehicle list" where
  "get_vehicles db current_user =
     filter (\<lambda>v. vehicle_user_id v = user_id current_user) (vehicles db)"

subsection \<open>Sessions\<close>

definition SessionResponse :: "parking_session \<Rightarrow> rat option \<Rightarrow> session_response" where
  "SessionResponse p ct =
     \<lparr>resp_id = session_id p, resp_user_id = session_user_id p,
      resp_vehicle_id = session_vehicle_id p, resp_zone_id = session_zone_id p,
      resp_started_at = started_at p, resp_ended_at = ended_at p,
      resp_minutes = minutes p, resp_cost = cost p, resp_status = status p,
      resp_cost_total = ct\<rparr>"

definition start_session ::
  "store \<Rightarrow> user \<Rightarrow> datetime \<Rightarrow> string \<Rightarrow> int \<Rightarrow> error + session_response \<times> store" where
  "start_session db current_user now vplate zid =
     (case first (filter (\<lambda>v. vehicle_user_id v = user_id current_user \<and> plate v = vplate)
                         (vehicles db)) of
        None \<Rightarrow> Inl VehicleNotFound
      | Some v \<Rightarrow>
          (case first (filter (\<lambda>p. session_vehicle_id p = vehicle_id v \<and> status p = ''active'')
                              (parking_sessions db)) of
             Some active_session \<Rightarrow> Inl ActiveSessionExists
           | None \<Rightarrow>
               (case get_zone db zid of
                  None \<Rightarrow> Inl ZoneNotFound
                | Some z \<Rightarrow>
                    let new_session =
                          \<lparr>session_id = next_id (map session_id (parking_sessions db)),
                           session_user_id = user_id current_user,
                           session_vehicle_id = vehicle_id v,
                           session_zone_id = zid,
                           started_at = now,
                           ended_at = None, minutes = None, cost = None,
                           status = ''active''\<rparr>
                    in Inr (SessionResponse new_session None,
                            db\<lparr>parking_sessions := parking_sessions db @ [new_session]\<rparr>))))"

text \<open>
  \<^verbatim>\<open>timedelta.total_seconds()\<close>: the duration in seconds, with its fractional part.
\<close>

definition total_seconds :: "timedelta \<Rightarrow> rat" where
  "total_seconds td = of_int td / 1000000"

text \<open>
  The billing block of \<^verbatim>\<open>stop_session\<close> (lines 205 to 223). It yields the four locals that
  the rest of the function reads: \<^verbatim>\<open>cost\<close>, \<^verbatim>\<open>cost_total\<close>, \<^verbatim>\<open>final_status\<close>, and the new
  value of \<^verbatim>\<open>current_user.balance\<close> when the block assigns it (\<open>None\<close> when it does not).
  The zone is read without a test for \<^verbatim>\<open>None\<close>; \<^verbatim>\<open>zone.rate_per_min\<close> on \<^verbatim>\<open>None\<close> raises
  \<^verbatim>\<open>AttributeError\<close>.
\<close>

definition billing ::
  "zone option \<Rightarrow> rat \<Rightarrow> int \<Rightarrow> error + rat \<times> rat \<times> string \<times> rat option" where
  "billing z user_balance mins =
     (if mins \<le> 3 then Inr (0, 0, ''completed'', None)
      else case z of
             None \<Rightarrow> Inl AttributeError
           | Some zn \<Rightarrow>
               let c = of_int mins * rate_per_min zn
               in if mins > max_minutes zn then Inr (c, c + 100, ''fined'', None)
                  else if user_balance < c then Inr (c, c, ''pending_payment'', None)
                  else Inr (c, c, ''completed'', Some (user_balance - c)))"

text \<open>
  The commit of \<^verbatim>\<open>stop_session\<close>: the row of the session gets its four new columns, and
  the row of the user its new balance when the balance was assigned.
\<close>

definition set_balance :: "int \<Rightarrow> rat option \<Rightarrow> user list \<Rightarrow> user list" where
  "set_balance uid b us =
     (case b of
        None \<Rightarrow> us
      | Some b' \<Rightarrow> map (\<lambda>u. if user_id u = uid then u\<lparr>balance := b'\<rparr> else u) us)"

definition finalize :: "datetime \<Rightarrow> int \<Rightarrow> rat \<Rightarrow> string \<Rightarrow> parking_session \<Rightarrow> parking_session" where
  "finalize e m c st p = p\<lparr>ended_at := Some e, minutes := Some m, cost := Some c, status := st\<rparr>"

definition stop_session ::
  "store \<Rightarrow> user \<Rightarrow> datetime \<Rightarrow> int \<Rightarrow> error + session_response \<times> store" where
  "stop_session db current_user now sid =
     (case get_parking_session db sid of
        None \<Rightarrow> Inl SessionNotFound
      | Some p \<Rightarrow>
          if session_user_id p \<noteq> user_id current_user then Inl StopForbidden
          else if status p \<noteq> ''active'' then Inl SessionFinalized
          else
            let duration_seconds = total_seconds (now - started_at p);
                mins = \<lceil>duration_seconds / 60\<rceil>
            in case billing (get_zone db (session_zone_id p)) (balance current_user) mins of
                 Inl e \<Rightarrow> Inl e
               | Inr (c, cost_total, final_status, new_balance) \<Rightarrow>
                   let p' = finalize now mins c final_status p
                   in Inr (SessionResponse p'
                             (if final_status = ''fined'' then Some cost_total else None),
                           db\<lparr>parking_sessions :=
                                 (map (\<lambda>q. if session_id q = session_id p
                                           then finalize now mins c final_status q else q)
                                      (parking_sessions db)),
                               users :=
                                 (set_balance (user_id current_user) new_balance
                                    (users db))\<rparr>))"

text \<open>
  The endpoint \<^verbatim>\<open>GET /sessions/{session_id}\<close>. Its function is named \<^verbatim>\<open>get_session\<close>: from
  line 250 of \<^verbatim>\<open>main.py\<close> on, this definition replaces, in the module, the
  \<^verbatim>\<open>get_session\<close> that line 13 imports from \<^verbatim>\<open>database.py\<close>.
\<close>

definition get_session :: "store \<Rightarrow> user \<Rightarrow> int \<Rightarrow> error + session_response" where
  "get_session db current_user sid =
     (case get_parking_session db sid of
        None \<Rightarrow> Inl ViewSessionNotFound
      | Some p \<Rightarrow>
          if session_user_id p \<noteq> user_id current_user then Inl ViewForbidden
          else Inr (SessionResponse p
                      (case cost p of
                         None \<Rightarrow> None
                       | Some c \<Rightarrow> if status p = ''fined'' then Some (c + 100) else None)))"

subsection \<open>Wallet\<close>

text \<open>
  \<^verbatim>\<open>deposit_to_wallet(deposit_data, session, current_user)\<close> as the function is written.
  Its parameter \<^verbatim>\<open>session\<close> is whatever the dependency hands over: a database session,
  on which \<^verbatim>\<open>add\<close>, \<^verbatim>\<open>commit\<close> and \<^verbatim>\<open>refresh\<close> work, or any other object, on which
  \<^verbatim>\<open>session.add\<close> raises \<^verbatim>\<open>AttributeError\<close>. The assignment to \<^verbatim>\<open>current_user.balance\<close>
  (line 300) comes before \<^verbatim>\<open>session.add\<close> (line 301) and reaches the database only
  through the commit.
\<close>

datatype session_dependency = DatabaseSession | ResponseObject session_response

definition deposit_to_wallet ::
  "store \<Rightarrow> session_dependency \<Rightarrow> user \<Rightarrow> rat \<Rightarrow> error + rat \<times> store" where
  "deposit_to_wallet db session current_user amount =
     (if amount \<le> 0 then Inl NonPositiveAmount
      else
        let b = balance current_user + amount
        in case session of
             ResponseObject r \<Rightarrow> Inl AttributeError
           | DatabaseSession \<Rightarrow>
               Inr (b, db\<lparr>users := set_balance (user_id current_user) (Some b) (users db)\<rparr>))"

text \<open>
  The route \<^verbatim>\<open>POST /wallet/deposit\<close> as \<^verbatim>\<open>main.py\<close> wires it. The default
  \<^verbatim>\<open>Depends(get_session)\<close> of line 290 is evaluated when line 288 is executed, after
  line 250 has bound the name \<^verbatim>\<open>get_session\<close> to the endpoint of
  \<^verbatim>\<open>GET /sessions/{session_id}\<close>. So the dependency of the route is that endpoint: its
  parameter \<^verbatim>\<open>session_id\<close>, which is not in the path of this route, is a required query
  parameter (a request without it is refused with 422 before any function runs); the
  endpoint raises 404 or 403 as it does on its own route; and what it returns, a
  \<^verbatim>\<open>SessionResponse\<close>, is the \<^verbatim>\<open>session\<close> that \<^verbatim>\<open>deposit_to_wallet\<close> receives.
  (The routes above line 250 evaluated their \<^verbatim>\<open>Depends(get_session)\<close> while the name was
  still the generator of \<^verbatim>\<open>database.py\<close>.)
\<close>

definition post_wallet_deposit ::
  "store \<Rightarrow> user \<Rightarrow> int option \<Rightarrow> rat \<Rightarrow> error + rat \<times> store" where
  "post_wallet_deposit db current_user query_session_id amount =
     (case query_session_id of
        None \<Rightarrow> Inl RequestValidationError
      | Some sid \<Rightarrow>
          (case get_session db current_user sid of
             Inl e \<Rightarrow> Inl e
           | Inr r \<Rightarrow> deposit_to_wallet db (ResponseObject r) current_user amount))"

section \<open>Requests and reachable stores\<close>

text \<open>
  A request carries the API key, the time at which it is served, and the route with its
  parameters. \<open>handle\<close> gives the store after the request: the committed store when the
  endpoint returns, the store as it was when authentication or the endpoint raises. The
  three \<^verbatim>\<open>GET\<close> routes never commit.
\<close>

datatype request =
    GetZones
  | CreateVehicle string
  | GetVehicles
  | StartSession string int
  | StopSession int
  | GetSession int
  | WalletDeposit "int option" rat

definition committed :: "store \<Rightarrow> error + 'a \<times> store \<Rightarrow> store" where
  "committed db res = (case res of Inl e \<Rightarrow> db | Inr (r, db') \<Rightarrow> db')"

definition handle :: "store \<Rightarrow> string \<Rightarrow> datetime \<Rightarrow> request \<Rightarrow> store" where
  "handle db x_api_key now req =
     (case get_current_user db x_api_key of
        Inl e \<Rightarrow> db
      | Inr current_user \<Rightarrow>
          (case req of
             GetZones \<Rightarrow> db
           | CreateVehicle vplate \<Rightarrow> committed db (create_vehicle db current_user vplate)
           | GetVehicles \<Rightarrow> db
           | StartSession vplate zid \<Rightarrow>
               committed db (start_session db current_user now vplate zid)
           | StopSession sid \<Rightarrow> committed db (stop_session db current_user now sid)
           | GetSession sid \<Rightarrow> db
           | WalletDeposit q amount \<Rightarrow>
               committed db (post_wallet_deposit db current_user q amount)))"

text \<open>
  The reachable stores: any store without parking sessions (as the seeded one is), and
  every store that a request leaves behind.
\<close>

inductive reachable :: "store \<Rightarrow> bool" where
  reachable_init: "parking_sessions db = [] \<Longrightarrow> reachable db"
| reachable_step: "reachable db \<Longrightarrow> reachable (handle db x_api_key now req)"

text \<open>A sequence of requests, served one after the other.\<close>

fun run :: "store \<Rightarrow> (string \<times> datetime \<times> request) list \<Rightarrow> store" where
  "run db [] = db"
| "run db ((x_api_key, now, req) # rest) = run (handle db x_api_key now req) rest"

text \<open>The active sessions of a vehicle.\<close>

definition active_sessions :: "store \<Rightarrow> int \<Rightarrow> parking_session list" where
  "active_sessions db vid =
     filter (\<lambda>p. session_vehicle_id p = vid \<and> status p = ''active'') (parking_sessions db)"

section \<open>Example stores\<close>

text \<open>
  The row of the seeded user, and the seeded store after that user has registered the
  plate ABC-123 and started, at time 0, a session in the zone \<open>zid\<close>.
\<close>

definition demo_user :: user where
  "demo_user = \<lparr>user_id = 1, email = ''demo@iberopuebla.mx'', api_key = ''testkey'',
                 balance = 300\<rparr>"

definition parked :: "int \<Rightarrow> store" where
  "parked zid =
     seed_data\<lparr>vehicles := [\<lparr>vehicle_id = 1, vehicle_user_id = 1, plate = ''ABC-123''\<rparr>],
               parking_sessions :=
                 [\<lparr>session_id = 1, session_user_id = 1, session_vehicle_id = 1,
                   session_zone_id = zid, started_at = 0, ended_at = None,
                   minutes = None, cost = None, status = ''active''\<rparr>]\<rparr>"

text \<open>The seeded store after the demo user has registered the plate ABC-123.\<close>

definition registered :: store where
  "registered =
     seed_data\<lparr>vehicles := [\<lparr>vehicle_id = 1, vehicle_user_id = 1, plate = ''ABC-123''\<rparr>]\<rparr>"

text \<open>The store \<open>parked 1\<close> after the session was stopped at 240 seconds.\<close>

definition stopped :: store where
  "stopped =
     parked 1
       \<lparr>users := [demo_user\<lparr>balance := 294\<rparr>],
        parking_sessions :=
          [\<lparr>session_id = 1, session_user_id = 1, session_vehicle_id = 1,
            session_zone_id = 1, started_at = 0, ended_at = Some 240000000,
            minutes = Some 4, cost = Some 6, status = ''completed''\<rparr>]\<rparr>"

section \<open>The minutes as the specification words them\<close>

text \<open>
  The specification computes the minutes from the elapsed duration ``in whole seconds'':
  the duration without its fraction of a second, then the ceiling of the sixtieth.
  These two definitions follow that wording; \<open>stop_session\<close> above follows the code.
\<close>

definition whole_seconds :: "timedelta \<Rightarrow> int" where
  "whole_seconds td = td div 1000000"

definition spec_minutes :: "datetime \<Rightarrow> datetime \<Rightarrow> int" where
  "spec_minutes started now = \<lceil>(of_int (whole_seconds (now - started)) :: rat) / 60\<rceil>"

section \<open>Auxiliary facts\<close>

subsection \<open>Queries\<close>

lemma first_None_iff: "first xs = None \<longleftrightarrow> xs = []"
  by (simp add: first_def split: list.splits)

lemma first_filter_SomeD: "first (filter P xs) = Some x \<Longrightarrow> x \<in> set xs \<and> P x"
proof -
  assume a: "first (filter P xs) = Some x"
  then obtain ys where "filter P xs = x # ys"
    by (auto simp: first_def split: list.splits)
  then have "x \<in> set (filter P xs)" by simp
  then show ?thesis by simp
qed

lemma first_filter_None_iff: "first (filter P xs) = None \<longleftrightarrow> (\<forall>x \<in> set xs. \<not> P x)"
  by (simp add: first_None_iff filter_empty_conv)

lemma first_filter_map:
  "(\<And>x. P (f x) = P x) \<Longrightarrow> first (filter P (map f xs)) = map_option f (first (filter P xs))"
  by (induction xs) (auto simp: first_def)

lemma length_filter_map_le:
  "(\<And>x. P (f x) \<Longrightarrow> P x) \<Longrightarrow> length (filter P (map f xs)) \<le> length (filter P xs)"
  by (induction xs) auto

lemma billing_status:
  "billing z b m = Inr (c, ct, st, nb) \<Longrightarrow> st \<in> {''completed'', ''fined'', ''pending_payment''}"
  by (auto simp: billing_def Let_def split: if_splits option.splits)

lemma billing_not_active: "billing z b m = Inr (c, ct, st, nb) \<Longrightarrow> st \<noteq> ''active''"
  by (auto dest: billing_status)

lemma stop_session_InrD:
  assumes "stop_session db cu now sid = Inr (r, db')"
  shows "\<exists>p c ct st nb.
           get_parking_session db sid = Some p \<and> session_user_id p = user_id cu \<and>
           status p = ''active'' \<and>
           billing (get_zone db (session_zone_id p)) (balance cu)
             \<lceil>total_seconds (now - started_at p) / 60\<rceil> = Inr (c, ct, st, nb) \<and>
           r = SessionResponse
                 (finalize now \<lceil>total_seconds (now - started_at p) / 60\<rceil> c st p)
                 (if st = ''fined'' then Some ct else None) \<and>
           db' = db\<lparr>parking_sessions :=
                      map (\<lambda>q. if session_id q = session_id p
                               then finalize now \<lceil>total_seconds (now - started_at p) / 60\<rceil> c st q
                               else q) (parking_sessions db),
                    users := set_balance (user_id cu) nb (users db)\<rparr>"
proof -
  obtain p where p: "get_parking_session db sid = Some p"
    using assms by (auto simp: stop_session_def split: option.splits)
  have own: "session_user_id p = user_id cu" "status p = ''active''"
    using assms p by (auto simp: stop_session_def split: if_splits)
  let ?m = "\<lceil>total_seconds (now - started_at p) / 60\<rceil>"
  obtain c ct st nb where
    b: "billing (get_zone db (session_zone_id p)) (balance cu) ?m = Inr (c, ct, st, nb)"
    using assms p own
    by (cases "billing (get_zone db (session_zone_id p)) (balance cu) ?m")
       (auto simp: stop_session_def Let_def)
  have "r = SessionResponse (finalize now ?m c st p) (if st = ''fined'' then Some ct else None)"
    and "db' = db\<lparr>parking_sessions :=
                      map (\<lambda>q. if session_id q = session_id p then finalize now ?m c st q else q)
                          (parking_sessions db),
                    users := set_balance (user_id cu) nb (users db)\<rparr>"
    using assms p own b by (simp_all add: stop_session_def Let_def)
  with p own b show ?thesis by blast
qed

lemma get_parking_session_id: "get_parking_session db sid = Some p \<Longrightarrow> session_id p = sid"
  by (auto simp: get_parking_session_def dest: first_filter_SomeD)

lemma start_session_InrD:
  assumes "start_session db cu now vplate zid = Inr (r, db')"
  shows "\<exists>v z. first (filter (\<lambda>v. vehicle_user_id v = user_id cu \<and> plate v = vplate)
                   (vehicles db)) = Some v \<and>
           active_sessions db (vehicle_id v) = [] \<and> get_zone db zid = Some z \<and>
           r = SessionResponse
                 \<lparr>session_id = next_id (map session_id (parking_sessions db)),
                  session_user_id = user_id cu, session_vehicle_id = vehicle_id v,
                  session_zone_id = zid, started_at = now, ended_at = None,
                  minutes = None, cost = None, status = ''active''\<rparr> None \<and>
           db' = db\<lparr>parking_sessions := parking_sessions db @
                   [\<lparr>session_id = next_id (map session_id (parking_sessions db)),
                     session_user_id = user_id cu, session_vehicle_id = vehicle_id v,
                     session_zone_id = zid, started_at = now, ended_at = None,
                     minutes = None, cost = None, status = ''active''\<rparr>]\<rparr>"
  using assms
  by (auto simp: start_session_def Let_def active_sessions_def first_None_iff
           split: option.splits)

lemma create_vehicle_InrD:
  assumes "create_vehicle db cu vplate = Inr (v, db')"
  shows "v = \<lparr>vehicle_id = next_id (map vehicle_id (vehicles db)),
              vehicle_user_id = user_id cu, plate = vplate\<rparr> \<and>
         db' = db\<lparr>vehicles := vehicles db @ [v]\<rparr>"
  using assms by (auto simp: create_vehicle_def Let_def split: option.splits)

lemma post_wallet_deposit_fails: "isl (post_wallet_deposit db cu q amount)"
  by (auto simp: post_wallet_deposit_def deposit_to_wallet_def Let_def
           split: option.splits sum.splits)

subsection \<open>Evaluation on concrete stores\<close>

lemma ceiling_rat_numeral:
  "\<lceil>numeral a / numeral b :: rat\<rceil> = - (- numeral a div numeral b)"
  using ceiling_divide_eq_div [of "numeral a" "numeral b", where ?'a = rat] by simp

lemmas eval_defs =
  stop_session_def start_session_def create_vehicle_def get_session_def
  post_wallet_deposit_def deposit_to_wallet_def handle_def committed_def
  get_current_user_def get_parking_session_def get_zone_def first_def next_id_def
  billing_def total_seconds_def finalize_def SessionResponse_def set_balance_def
  active_sessions_def seed_data_def demo_user_def parked_def Let_def ceiling_rat_numeral

lemma parked_handle:
  "handle (handle seed_data ''testkey'' 0 (CreateVehicle ''ABC-123'')) ''testkey'' 0
     (StartSession ''ABC-123'' 1) = parked 1"
  by (simp add: eval_defs)

lemma billing_grace: "m \<le> 3 \<Longrightarrow> billing z b m = Inr (0, 0, ''completed'', None)"
  by (simp add: billing_def)

lemma get_parking_session_after_stop:
  "get_parking_session
     (db\<lparr>parking_sessions :=
           map (\<lambda>q. if session_id q = k then finalize e m c st q else q) (parking_sessions db),
         users := us\<rparr>) k
   = map_option (finalize e m c st) (get_parking_session db k)"
proof -
  have "first (filter (\<lambda>p. session_id p = k)
          (map (\<lambda>q. if session_id q = k then finalize e m c st q else q) (parking_sessions db)))
        = map_option (\<lambda>q. if session_id q = k then finalize e m c st q else q)
            (first (filter (\<lambda>p. session_id p = k) (parking_sessions db)))"
    by (rule first_filter_map) (simp add: finalize_def)
  also have "\<dots> = map_option (finalize e m c st)
                     (first (filter (\<lambda>p. session_id p = k) (parking_sessions db)))"
    by (cases "first (filter (\<lambda>p. session_id p = k) (parking_sessions db))")
       (auto dest: first_filter_SomeD)
  finally show ?thesis by (simp add: get_parking_session_def)
qed

section \<open>Stopping a session\<close>

text \<open>
  C3 (grace period). For every successful stop whose computed minutes are at most 3, the
  billing block yields cost 0, cost total 0 and status completed whatever the zone (even
  an absent one) and the balance are; the response and the stored session carry cost 0
  and status completed; the table of users, hence every balance, is unchanged. The
  response reports the cost total only for a fined session, so it is absent here.
\<close>

theorem grace_period_is_free:
  assumes "get_parking_session db sid = Some p"
    and "stop_session db current_user now sid = Inr (r, db')"
    and "\<lceil>total_seconds (now - started_at p) / 60\<rceil> \<le> 3"
  shows "billing z b \<lceil>total_seconds (now - started_at p) / 60\<rceil>
           = Inr (0, 0, ''completed'', None)
       \<and> resp_cost r = Some 0 \<and> resp_status r = ''completed'' \<and> resp_cost_total r = None
       \<and> get_parking_session db' sid
           = Some (finalize now \<lceil>total_seconds (now - started_at p) / 60\<rceil> 0 ''completed'' p)
       \<and> users db' = users db"
proof -
  let ?m = "\<lceil>total_seconds (now - started_at p) / 60\<rceil>"
  have sid: "session_id p = sid"
    using assms(1) by (rule get_parking_session_id)
  have g: "billing zo bo ?m = Inr (0, 0, ''completed'', None)" for zo bo
    using assms(3) by (rule billing_grace)
  from stop_session_InrD [OF assms(2)] assms(1) g
  have r: "r = SessionResponse (finalize now ?m 0 ''completed'' p) None"
    and db': "db' = db\<lparr>parking_sessions :=
                      map (\<lambda>q. if session_id q = sid then finalize now ?m 0 ''completed'' q else q)
                          (parking_sessions db),
                    users := set_balance (user_id current_user) None (users db)\<rparr>"
    by (auto simp: sid)
  have "get_parking_session db' sid = Some (finalize now ?m 0 ''completed'' p)"
    unfolding db' by (simp add: get_parking_session_after_stop assms(1))
  moreover have "users db' = users db"
    by (simp add: db' set_balance_def)
  ultimately show ?thesis
    using g r by (simp add: SessionResponse_def finalize_def)
qed

theorem grace_period_is_free_witness:
  "get_parking_session (parked 1) 1 =
     Some \<lparr>session_id = 1, session_user_id = 1, session_vehicle_id = 1,
           session_zone_id = 1, started_at = 0, ended_at = None,
           minutes = None, cost = None, status = ''active''\<rparr>
   \<and> \<lceil>total_seconds (180000000 - 0) / 60\<rceil> = 3
   \<and> (\<exists>r db'. stop_session (parked 1) demo_user 180000000 1 = Inr (r, db')
        \<and> resp_cost r = Some 0 \<and> resp_status r = ''completed'' \<and> users db' = users (parked 1))"
proof -
  let ?p = "\<lparr>session_id = 1, session_user_id = 1, session_vehicle_id = 1,
           session_zone_id = 1, started_at = 0, ended_at = None,
           minutes = None, cost = None, status = ''active''\<rparr>"
  have h1: "get_parking_session (parked 1) 1 = Some ?p"
    by (simp add: eval_defs)
  have h3: "\<lceil>total_seconds (180000000 - started_at ?p) / 60\<rceil> \<le> 3"
    by (simp add: total_seconds_def)
  obtain r db' where h2: "stop_session (parked 1) demo_user 180000000 1 = Inr (r, db')"
    by (simp add: eval_defs)
  from grace_period_is_free [OF h1 h2 h3] h1 h2 show ?thesis
    by (simp add: total_seconds_def)
qed

lemma billing_fined:
  "3 < m \<Longrightarrow> max_minutes z < m \<Longrightarrow>
   billing (Some z) b m
     = Inr (of_int m * rate_per_min z, of_int m * rate_per_min z + 100, ''fined'', None)"
  by (simp add: billing_def Let_def)

lemma billing_pending:
  "3 < m \<Longrightarrow> m \<le> max_minutes z \<Longrightarrow> b < of_int m * rate_per_min z \<Longrightarrow>
   billing (Some z) b m
     = Inr (of_int m * rate_per_min z, of_int m * rate_per_min z, ''pending_payment'', None)"
  by (simp add: billing_def Let_def)

lemma billing_debit:
  "3 < m \<Longrightarrow> m \<le> max_minutes z \<Longrightarrow> \<not> b < of_int m * rate_per_min z \<Longrightarrow>
   billing (Some z) b m
     = Inr (of_int m * rate_per_min z, of_int m * rate_per_min z, ''completed'',
            Some (b - of_int m * rate_per_min z))"
  by (simp add: billing_def Let_def)

text \<open>What a successful stop does, given the outcome of the billing block.\<close>

lemma stop_session_result:
  assumes p: "get_parking_session db sid = Some p"
    and stop: "stop_session db cu now sid = Inr (r, db')"
    and b: "billing (get_zone db (session_zone_id p)) (balance cu)
              \<lceil>total_seconds (now - started_at p) / 60\<rceil> = Inr (c, ct, st, nb)"
  shows "r = SessionResponse (finalize now \<lceil>total_seconds (now - started_at p) / 60\<rceil> c st p)
               (if st = ''fined'' then Some ct else None)"
    and "get_parking_session db' sid
           = Some (finalize now \<lceil>total_seconds (now - started_at p) / 60\<rceil> c st p)"
    and "users db' = set_balance (user_id cu) nb (users db)"
    and "zones db' = zones db" and "vehicles db' = vehicles db"
proof -
  let ?m = "\<lceil>total_seconds (now - started_at p) / 60\<rceil>"
  have sid: "session_id p = sid"
    using p by (rule get_parking_session_id)
  from stop_session_InrD [OF stop] p b
  have r: "r = SessionResponse (finalize now ?m c st p) (if st = ''fined'' then Some ct else None)"
    and db': "db' = db\<lparr>parking_sessions :=
                      map (\<lambda>q. if session_id q = sid then finalize now ?m c st q else q)
                          (parking_sessions db),
                    users := set_balance (user_id cu) nb (users db)\<rparr>"
    by (auto simp: sid)
  show "r = SessionResponse (finalize now ?m c st p) (if st = ''fined'' then Some ct else None)"
    by (rule r)
  show "get_parking_session db' sid = Some (finalize now ?m c st p)"
    unfolding db' by (simp add: get_parking_session_after_stop p)
  show "users db' = set_balance (user_id cu) nb (users db)"
    and "zones db' = zones db" and "vehicles db' = vehicles db"
    by (simp_all add: db')
qed

text \<open>
  C4 (fine). For every successful stop whose minutes exceed 3 and exceed the zone's
  \<open>max_minutes\<close>, the session is stored with status fined and cost
  \<open>minutes * rate_per_min\<close>, the response reports the cost total \<open>cost + 100\<close>, and
  the table of users is unchanged. Nothing is assumed about the balance: the test of
  \<open>max_minutes\<close> comes before the test of the balance, so a session over the limit is
  fined also when the balance is below the cost (as in the witness, balance 5 and cost
  200).
\<close>

theorem over_limit_is_fined:
  assumes "get_parking_session db sid = Some p"
    and "get_zone db (session_zone_id p) = Some z"
    and "stop_session db current_user now sid = Inr (r, db')"
    and "m = \<lceil>total_seconds (now - started_at p) / 60\<rceil>"
    and "3 < m" and "max_minutes z < m"
  shows "resp_status r = ''fined''
       \<and> resp_cost r = Some (of_int m * rate_per_min z)
       \<and> resp_cost_total r = Some (of_int m * rate_per_min z + 100)
       \<and> get_parking_session db' sid
           = Some (finalize now m (of_int m * rate_per_min z) ''fined'' p)
       \<and> users db' = users db"
proof -
  have b: "billing (get_zone db (session_zone_id p)) (balance current_user)
             \<lceil>total_seconds (now - started_at p) / 60\<rceil>
           = Inr (of_int m * rate_per_min z, of_int m * rate_per_min z + 100, ''fined'', None)"
    using assms(2,4,5,6) by (simp add: billing_fined)
  from stop_session_result [OF assms(1) assms(3) b] assms(4) show ?thesis
    by (simp add: SessionResponse_def finalize_def set_balance_def)
qed

theorem over_limit_is_fined_witness:
  "get_zone (parked 2\<lparr>users := [demo_user\<lparr>balance := 5\<rparr>]\<rparr>) 2
     = Some \<lparr>zone_id = 2, name = ''B'', rate_per_min = 1, max_minutes = 180\<rparr>
   \<and> \<lceil>total_seconds (12000000000 - 0) / 60\<rceil> = 200
   \<and> balance (demo_user\<lparr>balance := 5\<rparr>) < 200 * 1
   \<and> (\<exists>r db'. stop_session (parked 2\<lparr>users := [demo_user\<lparr>balance := 5\<rparr>]\<rparr>)
                  (demo_user\<lparr>balance := 5\<rparr>) 12000000000 1 = Inr (r, db')
        \<and> resp_status r = ''fined'' \<and> resp_cost r = Some 200
        \<and> resp_cost_total r = Some 300 \<and> users db' = [demo_user\<lparr>balance := 5\<rparr>])"
proof -
  let ?db = "parked 2\<lparr>users := [demo_user\<lparr>balance := 5\<rparr>]\<rparr>"
  let ?p = "\<lparr>session_id = 1, session_user_id = 1, session_vehicle_id = 1,
             session_zone_id = 2, started_at = 0, ended_at = None,
             minutes = None, cost = None, status = ''active''\<rparr>"
  let ?z = "\<lparr>zone_id = 2, name = ''B'', rate_per_min = 1, max_minutes = 180\<rparr>"
  have h1: "get_parking_session ?db 1 = Some ?p"
    by (simp add: eval_defs)
  have h2: "get_zone ?db (session_zone_id ?p) = Some ?z"
    by (simp add: eval_defs)
  obtain r db' where h3: "stop_session ?db (demo_user\<lparr>balance := 5\<rparr>) 12000000000 1 = Inr (r, db')"
    by (simp add: eval_defs)
  have h4: "200 = \<lceil>total_seconds (12000000000 - started_at ?p) / 60\<rceil>"
    by (simp add: total_seconds_def)
  have h5: "(3::int) < 200" and h6: "max_minutes ?z < 200"
    by simp_all
  from over_limit_is_fined [OF h1 h2 h3 h4 h5 h6] h2 h3 show ?thesis
    by (simp add: total_seconds_def demo_user_def parked_def)
qed

text \<open>
  C5 (pending payment). For every successful stop with \<open>3 < minutes \<le> max_minutes\<close>
  and a balance below the cost \<open>minutes * rate_per_min\<close>, the session is stored with
  status \<^verbatim>\<open>pending_payment\<close> and the table of users is unchanged (witness: balance 5 and
  cost 6 leave the balance at 5).
\<close>

theorem insufficient_balance_is_pending:
  assumes "get_parking_session db sid = Some p"
    and "get_zone db (session_zone_id p) = Some z"
    and "stop_session db current_user now sid = Inr (r, db')"
    and "m = \<lceil>total_seconds (now - started_at p) / 60\<rceil>"
    and "3 < m" and "m \<le> max_minutes z"
    and "balance current_user < of_int m * rate_per_min z"
  shows "resp_status r = ''pending_payment''
       \<and> resp_cost r = Some (of_int m * rate_per_min z)
       \<and> get_parking_session db' sid
           = Some (finalize now m (of_int m * rate_per_min z) ''pending_payment'' p)
       \<and> users db' = users db"
proof -
  have b: "billing (get_zone db (session_zone_id p)) (balance current_user)
             \<lceil>total_seconds (now - started_at p) / 60\<rceil>
           = Inr (of_int m * rate_per_min z, of_int m * rate_per_min z,
                  ''pending_payment'', None)"
    using assms(2,4,5,6,7) by (simp add: billing_pending)
  from stop_session_result [OF assms(1) assms(3) b] assms(4) show ?thesis
    by (simp add: SessionResponse_def finalize_def set_balance_def)
qed

theorem insufficient_balance_is_pending_witness:
  "get_zone (parked 1\<lparr>users := [demo_user\<lparr>balance := 5\<rparr>]\<rparr>) 1
     = Some \<lparr>zone_id = 1, name = ''A'', rate_per_min = 3 / 2, max_minutes = 120\<rparr>
   \<and> \<lceil>total_seconds (240000000 - 0) / 60\<rceil> = 4
   \<and> balance (demo_user\<lparr>balance := 5\<rparr>) < 4 * (3 / 2)
   \<and> (\<exists>r db'. stop_session (parked 1\<lparr>users := [demo_user\<lparr>balance := 5\<rparr>]\<rparr>)
                  (demo_user\<lparr>balance := 5\<rparr>) 240000000 1 = Inr (r, db')
        \<and> resp_status r = ''pending_payment'' \<and> resp_cost r = Some 6
        \<and> users db' = [demo_user\<lparr>balance := 5\<rparr>])"
proof -
  let ?db = "parked 1\<lparr>users := [demo_user\<lparr>balance := 5\<rparr>]\<rparr>"
  let ?p = "\<lparr>session_id = 1, session_user_id = 1, session_vehicle_id = 1,
             session_zone_id = 1, started_at = 0, ended_at = None,
             minutes = None, cost = None, status = ''active''\<rparr>"
  let ?z = "\<lparr>zone_id = 1, name = ''A'', rate_per_min = 3 / 2, max_minutes = 120\<rparr>"
  have h1: "get_parking_session ?db 1 = Some ?p"
    by (simp add: eval_defs)
  have h2: "get_zone ?db (session_zone_id ?p) = Some ?z"
    by (simp add: eval_defs)
  obtain r db' where h3: "stop_session ?db (demo_user\<lparr>balance := 5\<rparr>) 240000000 1 = Inr (r, db')"
    by (simp add: eval_defs)
  have h4: "4 = \<lceil>total_seconds (240000000 - started_at ?p) / 60\<rceil>"
    by (simp add: total_seconds_def)
  have h5: "(3::int) < 4" and h6: "4 \<le> max_minutes ?z"
    and h7: "balance (demo_user\<lparr>balance := 5\<rparr>) < of_int 4 * rate_per_min ?z"
    by simp_all
  from insufficient_balance_is_pending [OF h1 h2 h3 h4 h5 h6 h7] h2 h3 show ?thesis
    by (simp add: total_seconds_def demo_user_def parked_def)
qed

subsection \<open>The billed minutes\<close>

lemma minutes_microseconds:
  "\<lceil>total_seconds td / 60\<rceil> = - ((- td) div 60000000)"
proof -
  have "total_seconds td / 60 = (of_int td :: rat) / of_int 60000000"
    by (simp add: total_seconds_def)
  then show ?thesis
    by (simp only: ceiling_divide_eq_div)
qed

lemma minutes_positive: "0 < td \<Longrightarrow> 1 \<le> \<lceil>total_seconds td / 60\<rceil>"
  by (simp add: le_ceiling_iff total_seconds_def)

lemma ceiling_ceiling_div:
  fixes x :: rat
  shows "\<lceil>(of_int \<lceil>x\<rceil> :: rat) / 60\<rceil> = \<lceil>x / 60\<rceil>"
proof (rule antisym)
  have "x / 60 \<le> of_int \<lceil>x\<rceil> / 60"
    by (simp add: divide_right_mono)
  then show "\<lceil>x / 60\<rceil> \<le> \<lceil>(of_int \<lceil>x\<rceil> :: rat) / 60\<rceil>"
    by (rule ceiling_mono)
next
  have "x / 60 \<le> of_int \<lceil>x / 60\<rceil>" by (rule le_of_int_ceiling)
  then have "x \<le> of_int \<lceil>x / 60\<rceil> * 60" by linarith
  then have "x \<le> of_int (\<lceil>x / 60\<rceil> * 60)" by simp
  then have "\<lceil>x\<rceil> \<le> \<lceil>x / 60\<rceil> * 60" by (simp only: ceiling_le_iff)
  then have "(of_int \<lceil>x\<rceil> :: rat) \<le> of_int (\<lceil>x / 60\<rceil> * 60)" by (simp only: of_int_le_iff)
  then have "(of_int \<lceil>x\<rceil> :: rat) \<le> of_int \<lceil>x / 60\<rceil> * 60" by simp
  then have "(of_int \<lceil>x\<rceil> :: rat) / 60 \<le> of_int \<lceil>x / 60\<rceil>" by linarith
  then show "\<lceil>(of_int \<lceil>x\<rceil> :: rat) / 60\<rceil> \<le> \<lceil>x / 60\<rceil>" by (simp only: ceiling_le_iff)
qed

text \<open>
  C2, as the claim words it, fails on the code. The claim takes the minutes as the
  ceiling of \<open>duration_seconds / 60\<close> with the duration in whole seconds. The code
  divides \<^verbatim>\<open>total_seconds()\<close>, which keeps the microseconds: a session stopped after
  180.5 seconds is billed 4 minutes (and charged 6 in zone A), where the 180 whole
  seconds give 3 minutes, inside the grace period.
\<close>

theorem billed_minutes_exceed_whole_seconds:
  "stop_session (parked 1) demo_user 180500000 1 =
     Inr (\<lparr>resp_id = 1, resp_user_id = 1, resp_vehicle_id = 1, resp_zone_id = 1,
            resp_started_at = 0, resp_ended_at = Some 180500000,
            resp_minutes = Some 4, resp_cost = Some 6,
            resp_status = ''completed'', resp_cost_total = None\<rparr>,
          parked 1
            \<lparr>users := [demo_user\<lparr>balance := 294\<rparr>],
             parking_sessions :=
               [\<lparr>session_id = 1, session_user_id = 1, session_vehicle_id = 1,
                 session_zone_id = 1, started_at = 0, ended_at = Some 180500000,
                 minutes = Some 4, cost = Some 6, status = ''completed''\<rparr>]\<rparr>)
   \<and> whole_seconds (180500000 - 0) = 180
   \<and> spec_minutes 0 180500000 = 3"
  by (simp add: eval_defs whole_seconds_def spec_minutes_def)

text \<open>
  C2, amended. For every successful stop the billed minutes are the ceiling of
  \<open>duration_seconds / 60\<close>, where \<open>duration_seconds\<close> is the elapsed time
  \<open>now - started_at\<close> in seconds with its fraction (microsecond resolution): the ceiling
  of the microseconds over 60 000 000. Rounding the seconds up to whole seconds first
  gives the same minutes; truncating them does not. Any partial minute rounds up (181
  seconds and 180.5 seconds both give 4 minutes), and a duration above 0 is billed at
  least 1 minute.
\<close>

theorem billed_minutes_round_up:
  assumes "get_parking_session db sid = Some p"
    and "stop_session db current_user now sid = Inr (r, db')"
  shows "resp_minutes r = Some \<lceil>total_seconds (now - started_at p) / 60\<rceil>
       \<and> \<lceil>total_seconds (now - started_at p) / 60\<rceil>
           = - ((- (now - started_at p)) div 60000000)
       \<and> \<lceil>total_seconds (now - started_at p) / 60\<rceil>
           = \<lceil>of_int \<lceil>total_seconds (now - started_at p)\<rceil> / (60::rat)\<rceil>
       \<and> (0 < now - started_at p \<longrightarrow> 1 \<le> \<lceil>total_seconds (now - started_at p) / 60\<rceil>)
       \<and> \<lceil>total_seconds 181000000 / 60\<rceil> = 4
       \<and> \<lceil>total_seconds 180500000 / 60\<rceil> = 4"
proof -
  let ?m = "\<lceil>total_seconds (now - started_at p) / 60\<rceil>"
  from stop_session_InrD [OF assms(2)] assms(1)
  have "resp_minutes r = Some ?m"
    by (auto simp: SessionResponse_def finalize_def)
  moreover have "?m = - ((- (now - started_at p)) div 60000000)"
    by (rule minutes_microseconds)
  moreover have "?m = \<lceil>of_int \<lceil>total_seconds (now - started_at p)\<rceil> / (60::rat)\<rceil>"
    by (simp only: ceiling_ceiling_div)
  moreover have "0 < now - started_at p \<longrightarrow> 1 \<le> ?m"
    using minutes_positive by blast
  moreover have "\<lceil>total_seconds 181000000 / 60\<rceil> = 4" "\<lceil>total_seconds 180500000 / 60\<rceil> = 4"
    by (simp_all add: total_seconds_def ceiling_rat_numeral)
  ultimately show ?thesis by blast
qed

theorem billed_minutes_round_up_witness:
  "0 < (1::int) - 0
   \<and> (\<exists>r db'. stop_session (parked 1) demo_user 1 1 = Inr (r, db')
        \<and> resp_minutes r = Some 1 \<and> resp_cost r = Some 0)"
proof -
  let ?p = "\<lparr>session_id = 1, session_user_id = 1, session_vehicle_id = 1,
             session_zone_id = 1, started_at = 0, ended_at = None,
             minutes = None, cost = None, status = ''active''\<rparr>"
  have h1: "get_parking_session (parked 1) 1 = Some ?p"
    by (simp add: eval_defs)
  obtain r db' where h2: "stop_session (parked 1) demo_user 1 1 = Inr (r, db')"
    by (simp add: eval_defs)
  have m: "- ((- (1 - started_at ?p)) div 60000000) = 1"
    by simp
  from billed_minutes_round_up [OF h1 h2] m have "resp_minutes r = Some 1"
    by simp
  moreover from h2 have "resp_cost r = Some 0"
    by (auto simp: eval_defs)
  ultimately show ?thesis using h2 by simp
qed

subsection \<open>Failures of stop\<close>

lemma stopped_stop:
  "stop_session (parked 1) demo_user 240000000 1 =
     Inr (\<lparr>resp_id = 1, resp_user_id = 1, resp_vehicle_id = 1, resp_zone_id = 1,
            resp_started_at = 0, resp_ended_at = Some 240000000,
            resp_minutes = Some 4, resp_cost = Some 6,
            resp_status = ''completed'', resp_cost_total = None\<rparr>, stopped)"
  by (simp add: eval_defs stopped_def)

text \<open>
  C7. \<open>stop_session\<close> fails with NotFound (404) when the session is absent; else with
  PermissionDenied (403) when the session belongs to another user, whatever its status;
  else with InvalidState (422) when its status is not active. A request whose stop
  fails leaves the store as it was. After a successful stop, a second stop of the same
  session by the same user fails with InvalidState and leaves the store as the first
  stop left it.
\<close>

theorem stop_session_failures:
  "(get_parking_session db sid = None \<longrightarrow>
      stop_session db current_user now sid = Inl SessionNotFound)
   \<and> (\<forall>p. get_parking_session db sid = Some p \<longrightarrow>
          session_user_id p \<noteq> user_id current_user \<longrightarrow>
          stop_session db current_user now sid = Inl StopForbidden)
   \<and> (\<forall>p. get_parking_session db sid = Some p \<longrightarrow>
          session_user_id p = user_id current_user \<longrightarrow> status p \<noteq> ''active'' \<longrightarrow>
          stop_session db current_user now sid = Inl SessionFinalized)
   \<and> status_code SessionNotFound = 404 \<and> status_code StopForbidden = 403
   \<and> status_code SessionFinalized = 422
   \<and> (\<forall>e key. get_current_user db key = Inr current_user \<longrightarrow>
          stop_session db current_user now sid = Inl e \<longrightarrow>
          handle db key now (StopSession sid) = db)
   \<and> (\<forall>r db' again later key.
          stop_session db current_user now sid = Inr (r, db') \<longrightarrow>
          user_id again = user_id current_user \<longrightarrow>
          stop_session db' again later sid = Inl SessionFinalized
          \<and> (get_current_user db' key = Inr again \<longrightarrow>
               handle db' key later (StopSession sid) = db'))"
proof -
  have second: "stop_session db' again later sid = Inl SessionFinalized"
    if stop: "stop_session db current_user now sid = Inr (r, db')"
      and same: "user_id again = user_id current_user"
    for r db' again later
  proof -
    from stop_session_InrD [OF stop] obtain p c ct st nb where
      p: "get_parking_session db sid = Some p"
      and own: "session_user_id p = user_id current_user"
      and b: "billing (get_zone db (session_zone_id p)) (balance current_user)
                \<lceil>total_seconds (now - started_at p) / 60\<rceil> = Inr (c, ct, st, nb)"
      by blast
    have "get_parking_session db' sid
            = Some (finalize now \<lceil>total_seconds (now - started_at p) / 60\<rceil> c st p)"
      using p stop b by (rule stop_session_result(2))
    moreover have "st \<noteq> ''active''"
      using b by (rule billing_not_active)
    ultimately show ?thesis
      using own same by (simp add: stop_session_def finalize_def)
  qed
  show ?thesis
    by (auto simp: second handle_def committed_def)
       (auto simp: stop_session_def)
qed

theorem stop_session_failures_witness:
  "get_parking_session seed_data 7 = None
   \<and> stop_session seed_data demo_user 0 7 = Inl SessionNotFound
   \<and> stop_session stopped (demo_user\<lparr>user_id := 2\<rparr>) 300000000 1 = Inl StopForbidden
   \<and> (\<exists>r. stop_session (parked 1) demo_user 240000000 1 = Inr (r, stopped))
   \<and> get_current_user stopped ''testkey'' = Inr (demo_user\<lparr>balance := 294\<rparr>)
   \<and> stop_session stopped (demo_user\<lparr>balance := 294\<rparr>) 300000000 1 = Inl SessionFinalized
   \<and> handle stopped ''testkey'' 300000000 (StopSession 1) = stopped"
proof -
  let ?again = "demo_user\<lparr>balance := 294\<rparr>"
  let ?done = "\<lparr>session_id = 1, session_user_id = 1, session_vehicle_id = 1,
            session_zone_id = 1, started_at = 0, ended_at = Some 240000000,
            minutes = Some 4, cost = Some 6, status = ''completed''\<rparr>"
  have none: "get_parking_session seed_data 7 = None"
    by (simp add: eval_defs)
  have some: "get_parking_session stopped 1 = Some ?done"
    by (simp add: eval_defs stopped_def)
  have other: "session_user_id ?done \<noteq> user_id (demo_user\<lparr>user_id := 2\<rparr>)"
    by (simp add: demo_user_def)
  have auth: "get_current_user stopped ''testkey'' = Inr ?again"
    by (simp add: eval_defs stopped_def)
  have same: "user_id ?again = user_id demo_user"
    by simp
  from stop_session_failures [of seed_data 7 demo_user 0] none
  have "stop_session seed_data demo_user 0 7 = Inl SessionNotFound"
    by blast
  moreover from stop_session_failures [of stopped 1 "demo_user\<lparr>user_id := 2\<rparr>" 300000000]
    some other
  have "stop_session stopped (demo_user\<lparr>user_id := 2\<rparr>) 300000000 1 = Inl StopForbidden"
    by blast
  moreover from stop_session_failures [of "parked 1" 1 demo_user 240000000]
    stopped_stop same auth
  have "stop_session stopped ?again 300000000 1 = Inl SessionFinalized
        \<and> handle stopped ''testkey'' 300000000 (StopSession 1) = stopped"
    by blast
  ultimately show ?thesis
    using none auth stopped_stop by simp
qed

section \<open>Registering a vehicle\<close>

lemma next_id_fresh: "next_id ks \<notin> set ks"
proof (cases "ks = []")
  case True
  then show ?thesis by simp
next
  case False
  show ?thesis
  proof
    assume "next_id ks \<in> set ks"
    then have "next_id ks \<le> Max (set ks)" by simp
    with False show False by (simp add: next_id_def)
  qed
qed

text \<open>
  C8. \<open>create_vehicle\<close> fails with Conflict (409) if and only if the table of vehicles
  has a row of this user with exactly this plate (plates are compared as strings, with
  no normalization); it has no other failure. On success the returned vehicle belongs
  to the caller, carries the plate and a key that no stored vehicle has, and is appended
  to the table; nothing else changes. In the witness the plate ABC-123 of user 1 is
  refused to user 1, accepted for user 2, and abc-123 is accepted for user 1.
\<close>

theorem create_vehicle_conflict:
  "(create_vehicle db current_user vplate = Inl VehicleExists \<longleftrightarrow>
      (\<exists>v \<in> set (vehicles db). vehicle_user_id v = user_id current_user \<and> plate v = vplate))
   \<and> (\<forall>e. create_vehicle db current_user vplate = Inl e \<longrightarrow> e = VehicleExists)
   \<and> status_code VehicleExists = 409
   \<and> (\<forall>v db'. create_vehicle db current_user vplate = Inr (v, db') \<longrightarrow>
         vehicle_user_id v = user_id current_user \<and> plate v = vplate
         \<and> vehicle_id v \<notin> vehicle_id ` set (vehicles db)
         \<and> vehicles db' = vehicles db @ [v]
         \<and> get_vehicles db' current_user = get_vehicles db current_user @ [v]
         \<and> users db' = users db \<and> zones db' = zones db
         \<and> parking_sessions db' = parking_sessions db)"
proof -
  let ?P = "\<lambda>v. vehicle_user_id v = user_id current_user \<and> plate v = vplate"
  have iff: "create_vehicle db current_user vplate = Inl VehicleExists \<longleftrightarrow>
               (\<exists>v \<in> set (vehicles db). ?P v)"
  proof (cases "first (filter ?P (vehicles db))")
    case None
    then have "\<not> (\<exists>v \<in> set (vehicles db). ?P v)"
      by (simp add: first_filter_None_iff)
    moreover from None have "create_vehicle db current_user vplate \<noteq> Inl VehicleExists"
      by (simp add: create_vehicle_def Let_def)
    ultimately show ?thesis by blast
  next
    case (Some v)
    then show ?thesis
      by (auto simp: create_vehicle_def dest: first_filter_SomeD)
  qed
  have only: "e = VehicleExists" if "create_vehicle db current_user vplate = Inl e" for e
    using that by (auto simp: create_vehicle_def Let_def split: option.splits)
  have ok: "vehicle_user_id v = user_id current_user \<and> plate v = vplate
         \<and> vehicle_id v \<notin> vehicle_id ` set (vehicles db)
         \<and> vehicles db' = vehicles db @ [v]
         \<and> get_vehicles db' current_user = get_vehicles db current_user @ [v]
         \<and> users db' = users db \<and> zones db' = zones db
         \<and> parking_sessions db' = parking_sessions db"
    if "create_vehicle db current_user vplate = Inr (v, db')" for v db'
  proof -
    from create_vehicle_InrD [OF that]
    have v: "v = \<lparr>vehicle_id = next_id (map vehicle_id (vehicles db)),
                  vehicle_user_id = user_id current_user, plate = vplate\<rparr>"
      and db': "db' = db\<lparr>vehicles := vehicles db @ [v]\<rparr>"
      by simp_all
    have "vehicle_id v \<notin> vehicle_id ` set (vehicles db)"
      using next_id_fresh [of "map vehicle_id (vehicles db)"] by (simp add: v)
    then show ?thesis
      by (simp add: db' get_vehicles_def) (simp add: v)
  qed
  have code: "status_code VehicleExists = 409"
    by simp
  from iff only code ok show ?thesis
    by blast
qed

theorem create_vehicle_conflict_witness:
  "create_vehicle registered demo_user ''ABC-123'' = Inl VehicleExists
   \<and> create_vehicle registered (demo_user\<lparr>user_id := 2\<rparr>) ''ABC-123''
       = Inr (\<lparr>vehicle_id = 2, vehicle_user_id = 2, plate = ''ABC-123''\<rparr>,
              registered\<lparr>vehicles :=
                [\<lparr>vehicle_id = 1, vehicle_user_id = 1, plate = ''ABC-123''\<rparr>,
                 \<lparr>vehicle_id = 2, vehicle_user_id = 2, plate = ''ABC-123''\<rparr>]\<rparr>)
   \<and> create_vehicle registered demo_user ''abc-123''
       = Inr (\<lparr>vehicle_id = 2, vehicle_user_id = 1, plate = ''abc-123''\<rparr>,
              registered\<lparr>vehicles :=
                [\<lparr>vehicle_id = 1, vehicle_user_id = 1, plate = ''ABC-123''\<rparr>,
                 \<lparr>vehicle_id = 2, vehicle_user_id = 1, plate = ''abc-123''\<rparr>]\<rparr>)"
proof -
  have ex: "\<exists>v \<in> set (vehicles registered).
              vehicle_user_id v = user_id demo_user \<and> plate v = ''ABC-123''"
    by (simp add: registered_def demo_user_def)
  have other: "\<not> (\<exists>v \<in> set (vehicles registered).
              vehicle_user_id v = user_id (demo_user\<lparr>user_id := 2\<rparr>) \<and> plate v = ''ABC-123'')"
    by (simp add: registered_def demo_user_def)
  have lower: "\<not> (\<exists>v \<in> set (vehicles registered).
              vehicle_user_id v = user_id demo_user \<and> plate v = ''abc-123'')"
    by (simp add: registered_def demo_user_def)
  from create_vehicle_conflict [of registered demo_user "''ABC-123''"] ex
  have 1: "create_vehicle registered demo_user ''ABC-123'' = Inl VehicleExists"
    by blast
  from create_vehicle_conflict [of registered "demo_user\<lparr>user_id := 2\<rparr>" "''ABC-123''"] other
  have 2: "create_vehicle registered (demo_user\<lparr>user_id := 2\<rparr>) ''ABC-123'' \<noteq> Inl VehicleExists"
    by blast
  from create_vehicle_conflict [of registered demo_user "''abc-123''"] lower
  have 3: "create_vehicle registered demo_user ''abc-123'' \<noteq> Inl VehicleExists"
    by blast
  have "create_vehicle registered (demo_user\<lparr>user_id := 2\<rparr>) ''ABC-123''
       = Inr (\<lparr>vehicle_id = 2, vehicle_user_id = 2, plate = ''ABC-123''\<rparr>,
              registered\<lparr>vehicles :=
                [\<lparr>vehicle_id = 1, vehicle_user_id = 1, plate = ''ABC-123''\<rparr>,
                 \<lparr>vehicle_id = 2, vehicle_user_id = 2, plate = ''ABC-123''\<rparr>]\<rparr>)"
    by (simp add: eval_defs registered_def)
  moreover have "create_vehicle registered demo_user ''abc-123''
       = Inr (\<lparr>vehicle_id = 2, vehicle_user_id = 1, plate = ''abc-123''\<rparr>,
              registered\<lparr>vehicles :=
                [\<lparr>vehicle_id = 1, vehicle_user_id = 1, plate = ''ABC-123''\<rparr>,
                 \<lparr>vehicle_id = 2, vehicle_user_id = 1, plate = ''abc-123''\<rparr>]\<rparr>)"
    by (simp add: eval_defs registered_def)
  ultimately show ?thesis
    using 1 2 3 by blast
qed

section \<open>Invariants of the reachable stores\<close>

text \<open>
  A request leaves the store as it was, or commits a new vehicle, a new session, or the
  stop of a session. (The deposit route never commits, as shown above by
  \<open>post_wallet_deposit_fails\<close>.)
\<close>

lemma handle_cases:
  obtains
    (unchanged) "handle db key now req = db"
  | (created) cu vplate v db' where
      "get_current_user db key = Inr cu" "req = CreateVehicle vplate"
      "create_vehicle db cu vplate = Inr (v, db')" "handle db key now req = db'"
  | (started) cu vplate zid r db' where
      "get_current_user db key = Inr cu" "req = StartSession vplate zid"
      "start_session db cu now vplate zid = Inr (r, db')" "handle db key now req = db'"
  | (stopped) cu sid r db' where
      "get_current_user db key = Inr cu" "req = StopSession sid"
      "stop_session db cu now sid = Inr (r, db')" "handle db key now req = db'"
proof (cases "get_current_user db key")
  case (Inl e)
  then have "handle db key now req = db" by (simp add: handle_def)
  then show ?thesis by (rule unchanged)
next
  case (Inr cu)
  show ?thesis
  proof (cases req)
    case GetZones
    with Inr have "handle db key now req = db" by (simp add: handle_def)
    then show ?thesis by (rule unchanged)
  next
    case (CreateVehicle vplate)
    show ?thesis
    proof (cases "create_vehicle db cu vplate")
      case (Inl e)
      with Inr CreateVehicle have "handle db key now req = db"
        by (simp add: handle_def committed_def)
      then show ?thesis by (rule unchanged)
    next
      case (Inr res)
      obtain v db' where res: "res = (v, db')" by (cases res)
      with Inr \<open>get_current_user db key = Inr cu\<close> CreateVehicle
      have "handle db key now req = db'"
        by (simp add: handle_def committed_def)
      with \<open>get_current_user db key = Inr cu\<close> CreateVehicle Inr res show ?thesis
        by (auto intro: created)
    qed
  next
    case GetVehicles
    with Inr have "handle db key now req = db" by (simp add: handle_def)
    then show ?thesis by (rule unchanged)
  next
    case (StartSession vplate zid)
    show ?thesis
    proof (cases "start_session db cu now vplate zid")
      case (Inl e)
      with Inr StartSession have "handle db key now req = db"
        by (simp add: handle_def committed_def)
      then show ?thesis by (rule unchanged)
    next
      case (Inr res)
      obtain r db' where res: "res = (r, db')" by (cases res)
      with Inr \<open>get_current_user db key = Inr cu\<close> StartSession
      have "handle db key now req = db'"
        by (simp add: handle_def committed_def)
      with \<open>get_current_user db key = Inr cu\<close> StartSession Inr res show ?thesis
        by (auto intro: started)
    qed
  next
    case (StopSession sid)
    show ?thesis
    proof (cases "stop_session db cu now sid")
      case (Inl e)
      with Inr StopSession have "handle db key now req = db"
        by (simp add: handle_def committed_def)
      then show ?thesis by (rule unchanged)
    next
      case (Inr res)
      obtain r db' where res: "res = (r, db')" by (cases res)
      with Inr \<open>get_current_user db key = Inr cu\<close> StopSession
      have "handle db key now req = db'"
        by (simp add: handle_def committed_def)
      with \<open>get_current_user db key = Inr cu\<close> StopSession Inr res show ?thesis
        by (auto intro: stopped)
    qed
  next
    case (GetSession sid)
    with Inr have "handle db key now req = db" by (simp add: handle_def)
    then show ?thesis by (rule unchanged)
  next
    case (WalletDeposit q amount)
    from post_wallet_deposit_fails [of db cu q amount]
    obtain e where "post_wallet_deposit db cu q amount = Inl e"
      by (cases "post_wallet_deposit db cu q amount") auto
    with Inr WalletDeposit have "handle db key now req = db"
      by (simp add: handle_def committed_def)
    then show ?thesis by (rule unchanged)
  qed
qed

lemma active_sessions_start:
  assumes "start_session db cu now vplate zid = Inr (r, db')"
  shows "length (active_sessions db vid) \<le> 1 \<Longrightarrow> length (active_sessions db' vid) \<le> 1"
proof -
  from start_session_InrD [OF assms] obtain v z where
    all: "first (filter (\<lambda>v. vehicle_user_id v = user_id cu \<and> plate v = vplate)
                   (vehicles db)) = Some v \<and>
           active_sessions db (vehicle_id v) = [] \<and> get_zone db zid = Some z \<and>
           r = SessionResponse
                 \<lparr>session_id = next_id (map session_id (parking_sessions db)),
                  session_user_id = user_id cu, session_vehicle_id = vehicle_id v,
                  session_zone_id = zid, started_at = now, ended_at = None,
                  minutes = None, cost = None, status = ''active''\<rparr> None \<and>
           db' = db\<lparr>parking_sessions := parking_sessions db @
                   [\<lparr>session_id = next_id (map session_id (parking_sessions db)),
                     session_user_id = user_id cu, session_vehicle_id = vehicle_id v,
                     session_zone_id = zid, started_at = now, ended_at = None,
                     minutes = None, cost = None, status = ''active''\<rparr>]\<rparr>"
    by (elim exE)
  then have free: "active_sessions db (vehicle_id v) = []"
    and db': "db' = db\<lparr>parking_sessions := parking_sessions db @
                [\<lparr>session_id = next_id (map session_id (parking_sessions db)),
                  session_user_id = user_id cu, session_vehicle_id = vehicle_id v,
                  session_zone_id = zid, started_at = now, ended_at = None,
                  minutes = None, cost = None, status = ''active''\<rparr>]\<rparr>"
    by simp_all
  assume le: "length (active_sessions db vid) \<le> 1"
  show ?thesis
  proof (cases "vid = vehicle_id v")
    case True
    with free show ?thesis by (simp add: db' active_sessions_def)
  next
    case False
    with le show ?thesis by (simp add: db' active_sessions_def)
  qed
qed

lemma active_sessions_stop:
  assumes "stop_session db cu now sid = Inr (r, db')"
  shows "length (active_sessions db' vid) \<le> length (active_sessions db vid)"
proof -
  let ?m = "\<lambda>p. \<lceil>total_seconds (now - started_at p) / 60\<rceil>"
  from stop_session_InrD [OF assms] obtain p c ct st nb where
    all: "get_parking_session db sid = Some p \<and> session_user_id p = user_id cu \<and>
           status p = ''active'' \<and>
           billing (get_zone db (session_zone_id p)) (balance cu)
             \<lceil>total_seconds (now - started_at p) / 60\<rceil> = Inr (c, ct, st, nb) \<and>
           r = SessionResponse
                 (finalize now \<lceil>total_seconds (now - started_at p) / 60\<rceil> c st p)
                 (if st = ''fined'' then Some ct else None) \<and>
           db' = db\<lparr>parking_sessions :=
                      map (\<lambda>q. if session_id q = session_id p
                               then finalize now \<lceil>total_seconds (now - started_at p) / 60\<rceil> c st q
                               else q) (parking_sessions db),
                    users := set_balance (user_id cu) nb (users db)\<rparr>"
    by (elim exE)
  then have b: "billing (get_zone db (session_zone_id p)) (balance cu) (?m p) = Inr (c, ct, st, nb)"
    and db': "db' = db\<lparr>parking_sessions :=
                      map (\<lambda>q. if session_id q = session_id p
                               then finalize now (?m p) c st q else q)
                          (parking_sessions db),
                    users := set_balance (user_id cu) nb (users db)\<rparr>"
    by simp_all
  have st: "st \<noteq> ''active''"
    using b by (rule billing_not_active)
  let ?f = "\<lambda>q. if session_id q = session_id p then finalize now (?m p) c st q else q"
  let ?P = "\<lambda>p. session_vehicle_id p = vid \<and> status p = ''active''"
  have "length (filter ?P (map ?f (parking_sessions db)))
          \<le> length (filter ?P (parking_sessions db))"
  proof (rule length_filter_map_le)
    fix x
    assume "?P (?f x)"
    then show "?P x"
      using st by (simp add: finalize_def split: if_splits)
  qed
  then show ?thesis
    by (simp add: db' active_sessions_def)
qed

lemma active_sessions_handle:
  assumes "length (active_sessions db vid) \<le> 1"
  shows "length (active_sessions (handle db key now req) vid) \<le> 1"
proof (cases rule: handle_cases [of db key now req])
  case unchanged
  with assms show ?thesis by simp
next
  case (created cu vplate v db')
  from create_vehicle_InrD [OF created(3)] have "parking_sessions db' = parking_sessions db"
    by simp
  with assms created(4) show ?thesis by (simp add: active_sessions_def)
next
  case (started cu vplate zid r db')
  from active_sessions_start [OF started(3) assms] started(4) show ?thesis
    by simp
next
  case (stopped cu sid r db')
  from active_sessions_stop [OF stopped(3), of vid] assms stopped(4) show ?thesis
    by simp
qed

lemma reachable_single_active:
  "reachable db \<Longrightarrow> length (active_sessions db vid) \<le> 1"
proof (induction rule: reachable.induct)
  case (reachable_init db)
  then show ?case by (simp add: active_sessions_def)
next
  case (reachable_step db x_api_key now req)
  from reachable_step.IH show ?case by (rule active_sessions_handle)
qed


lemma zones_handle: "zones (handle db key now req) = zones db"
proof (cases rule: handle_cases [of db key now req])
  case unchanged
  then show ?thesis by simp
next
  case (created cu vplate v db')
  from create_vehicle_InrD [OF created(3)] created(4) show ?thesis by simp
next
  case (started cu vplate zid r db')
  from start_session_InrD [OF started(3)] started(4) show ?thesis by auto
next
  case (stopped cu sid r db')
  from stop_session_InrD [OF stopped(3)] stopped(4) show ?thesis by auto
qed

lemma session_zones_handle:
  assumes inv: "\<forall>p \<in> set (parking_sessions db). get_zone db (session_zone_id p) \<noteq> None"
  shows "\<forall>p \<in> set (parking_sessions (handle db key now req)).
           get_zone (handle db key now req) (session_zone_id p) \<noteq> None"
proof -
  have z: "get_zone (handle db key now req) k = get_zone db k" for k
    by (simp add: get_zone_def zones_handle)
  have "\<forall>p \<in> set (parking_sessions (handle db key now req)).
          get_zone db (session_zone_id p) \<noteq> None"
  proof (cases rule: handle_cases [of db key now req])
    case unchanged
    with inv show ?thesis by simp
  next
    case (created cu vplate v db')
    from create_vehicle_InrD [OF created(3)] created(4) inv show ?thesis by simp
  next
    case (started cu vplate zid r db')
    from start_session_InrD [OF started(3)] started(4) inv show ?thesis by auto
  next
    case (stopped cu sid r db')
    from stop_session_InrD [OF stopped(3)] stopped(4) inv show ?thesis
      by (auto simp: finalize_def)
  qed
  then show ?thesis by (simp add: z)
qed

lemma reachable_session_zones:
  "reachable db \<Longrightarrow> \<forall>p \<in> set (parking_sessions db). get_zone db (session_zone_id p) \<noteq> None"
proof (induction rule: reachable.induct)
  case (reachable_init db)
  then show ?case by simp
next
  case (reachable_step db x_api_key now req)
  from reachable_step.IH show ?case by (rule session_zones_handle)
qed

lemma stop_session_AttributeError:
  assumes "stop_session db cu now sid = Inl AttributeError"
  shows "\<exists>p. get_parking_session db sid = Some p \<and> get_zone db (session_zone_id p) = None"
  using assms
  by (auto simp: stop_session_def billing_def Let_def
           split: option.splits if_splits sum.splits)

lemma seed_data_reachable: "reachable seed_data"
  by (rule reachable_init) (simp add: seed_data_def)

lemma registered_handle:
  "handle seed_data ''testkey'' 0 (CreateVehicle ''ABC-123'') = registered"
  by (simp add: eval_defs registered_def)

lemma parked_start:
  "start_session registered demo_user 0 ''ABC-123'' 1 =
     Inr (\<lparr>resp_id = 1, resp_user_id = 1, resp_vehicle_id = 1, resp_zone_id = 1,
            resp_started_at = 0, resp_ended_at = None, resp_minutes = None,
            resp_cost = None, resp_status = ''active'', resp_cost_total = None\<rparr>,
          parked 1)"
  by (simp add: eval_defs registered_def)

lemma parked_reachable: "reachable (parked 1)"
proof -
  have "reachable (handle (handle seed_data ''testkey'' 0 (CreateVehicle ''ABC-123''))
                     ''testkey'' 0 (StartSession ''ABC-123'' 1))"
    by (intro reachable_step seed_data_reachable)
  then show ?thesis by (simp only: parked_handle)
qed

subsection \<open>One active session for each vehicle\<close>

text \<open>
  C1, as the claim words it, fails on the code. The claim has \<open>start\<close> create the session
  whenever the resolved vehicle has no active session. The code tests the zone after
  that (lines 143 to 148): for a registered vehicle without active session and a
  \<open>zone_id\<close> that no zone has, \<open>start_session\<close> fails with NotFound and creates nothing.
\<close>

theorem start_session_unknown_zone:
  "get_vehicles registered demo_user
     = [\<lparr>vehicle_id = 1, vehicle_user_id = 1, plate = ''ABC-123''\<rparr>]
   \<and> active_sessions registered 1 = []
   \<and> get_zone registered 3 = None
   \<and> start_session registered demo_user 0 ''ABC-123'' 3 = Inl ZoneNotFound
   \<and> handle registered ''testkey'' 0 (StartSession ''ABC-123'' 3) = registered"
  by (simp add: eval_defs registered_def get_vehicles_def)

text \<open>
  C1, amended. In every reachable store each vehicle has at most one session with status
  active, and every request preserves this. For the vehicle that the plate resolves to,
  \<open>start_session\<close> fails with Conflict (409) whenever that vehicle has an active session;
  otherwise it fails with NotFound when the zone is absent, and creates the new session
  with status active when the zone is present.
\<close>

theorem single_active_session:
  "(reachable db \<longrightarrow> length (active_sessions db vid) \<le> 1)
   \<and> (length (active_sessions db vid) \<le> 1 \<longrightarrow>
        length (active_sessions (handle db key now req) vid) \<le> 1)
   \<and> (\<forall>v. first (filter (\<lambda>v. vehicle_user_id v = user_id current_user \<and> plate v = vplate)
                  (vehicles db)) = Some v \<longrightarrow>
          (active_sessions db (vehicle_id v) \<noteq> [] \<longrightarrow>
             start_session db current_user now vplate zid = Inl ActiveSessionExists)
          \<and> (active_sessions db (vehicle_id v) = [] \<longrightarrow>
               (get_zone db zid = None \<longrightarrow>
                  start_session db current_user now vplate zid = Inl ZoneNotFound)
               \<and> (get_zone db zid \<noteq> None \<longrightarrow>
                    start_session db current_user now vplate zid
                      = Inr (SessionResponse
                               \<lparr>session_id = next_id (map session_id (parking_sessions db)),
                                session_user_id = user_id current_user,
                                session_vehicle_id = vehicle_id v, session_zone_id = zid,
                                started_at = now, ended_at = None, minutes = None,
                                cost = None, status = ''active''\<rparr> None,
                             db\<lparr>parking_sessions := parking_sessions db @
                               [\<lparr>session_id = next_id (map session_id (parking_sessions db)),
                                 session_user_id = user_id current_user,
                                 session_vehicle_id = vehicle_id v, session_zone_id = zid,
                                 started_at = now, ended_at = None, minutes = None,
                                 cost = None, status = ''active''\<rparr>]\<rparr>))))
   \<and> status_code ActiveSessionExists = 409"
proof -
  have start: "(active_sessions db (vehicle_id v) \<noteq> [] \<longrightarrow>
             start_session db current_user now vplate zid = Inl ActiveSessionExists)
          \<and> (active_sessions db (vehicle_id v) = [] \<longrightarrow>
               (get_zone db zid = None \<longrightarrow>
                  start_session db current_user now vplate zid = Inl ZoneNotFound)
               \<and> (get_zone db zid \<noteq> None \<longrightarrow>
                    start_session db current_user now vplate zid
                      = Inr (SessionResponse
                               \<lparr>session_id = next_id (map session_id (parking_sessions db)),
                                session_user_id = user_id current_user,
                                session_vehicle_id = vehicle_id v, session_zone_id = zid,
                                started_at = now, ended_at = None, minutes = None,
                                cost = None, status = ''active''\<rparr> None,
                             db\<lparr>parking_sessions := parking_sessions db @
                               [\<lparr>session_id = next_id (map session_id (parking_sessions db)),
                                 session_user_id = user_id current_user,
                                 session_vehicle_id = vehicle_id v, session_zone_id = zid,
                                 started_at = now, ended_at = None, minutes = None,
                                 cost = None, status = ''active''\<rparr>]\<rparr>)))"
    if v: "first (filter (\<lambda>v. vehicle_user_id v = user_id current_user \<and> plate v = vplate)
                  (vehicles db)) = Some v" for v
  proof (cases "active_sessions db (vehicle_id v) = []")
    case True
    then have "first (filter (\<lambda>p. session_vehicle_id p = vehicle_id v \<and> status p = ''active'')
                        (parking_sessions db)) = None"
      by (simp add: active_sessions_def first_def)
    with v True show ?thesis
      by (auto simp: start_session_def Let_def)
  next
    case False
    then obtain a where
      "first (filter (\<lambda>p. session_vehicle_id p = vehicle_id v \<and> status p = ''active'')
                (parking_sessions db)) = Some a"
      by (cases "active_sessions db (vehicle_id v)")
         (auto simp: active_sessions_def first_def)
    with v False show ?thesis
      by (simp add: start_session_def)
  qed
  have code: "status_code ActiveSessionExists = 409"
    by simp
  from reachable_single_active [of db vid] active_sessions_handle [of db vid key now req]
    start code
  show ?thesis by blast
qed

theorem single_active_session_witness:
  "reachable (parked 1)
   \<and> length (active_sessions (parked 1) 1) \<le> 1
   \<and> active_sessions (parked 1) 1 \<noteq> []
   \<and> start_session (parked 1) demo_user 5 ''ABC-123'' 2 = Inl ActiveSessionExists
   \<and> active_sessions registered 1 = []
   \<and> (\<exists>r. start_session registered demo_user 0 ''ABC-123'' 1 = Inr (r, parked 1))
   \<and> length (active_sessions (handle (parked 1) ''testkey'' 5 (StartSession ''ABC-123'' 2)) 1)
        \<le> 1"
proof -
  let ?v = "\<lparr>vehicle_id = 1, vehicle_user_id = 1, plate = ''ABC-123''\<rparr>"
  have v: "first (filter (\<lambda>v. vehicle_user_id v = user_id demo_user \<and> plate v = ''ABC-123'')
                    (vehicles (parked 1))) = Some ?v"
    by (simp add: eval_defs)
  have busy: "active_sessions (parked 1) (vehicle_id ?v) \<noteq> []"
    by (simp add: eval_defs)
  have free: "active_sessions registered 1 = []"
    by (simp add: eval_defs registered_def)
  note inst = single_active_session [of "parked 1" 1 "''testkey''" 5 "StartSession ''ABC-123'' 2"
      demo_user "''ABC-123''" 2]
  from inst parked_reachable have le: "length (active_sessions (parked 1) 1) \<le> 1"
    by blast
  with inst have step:
    "length (active_sessions (handle (parked 1) ''testkey'' 5 (StartSession ''ABC-123'' 2)) 1) \<le> 1"
    by blast
  from inst v busy
  have conflict: "start_session (parked 1) demo_user 5 ''ABC-123'' 2 = Inl ActiveSessionExists"
    by blast
  from busy have busy': "active_sessions (parked 1) 1 \<noteq> []"
    by simp
  show ?thesis
    using parked_reachable le busy' conflict free parked_start step by simp
qed

subsection \<open>The zone of a session\<close>

text \<open>
  C10. \<open>stop_session\<close> reads \<^verbatim>\<open>zone.rate_per_min\<close> and \<^verbatim>\<open>zone.max_minutes\<close> without a test
  that the zone was found: on a store whose session names an absent zone (\<open>parked 3\<close>,
  which no request produces) a stop beyond the grace period raises \<^verbatim>\<open>AttributeError\<close>.
  In every reachable store each session names a zone of the store, since
  \<open>start_session\<close> succeeds only for a zone that is present and no request changes the
  table of zones; so in a reachable store \<open>stop_session\<close> never raises
  \<^verbatim>\<open>AttributeError\<close>.
\<close>

theorem stop_session_zone_present:
  "(reachable db \<longrightarrow>
      (\<forall>p \<in> set (parking_sessions db). get_zone db (session_zone_id p) \<noteq> None))
   \<and> (reachable db \<longrightarrow> stop_session db current_user now sid \<noteq> Inl AttributeError)
   \<and> zones (handle db key now req) = zones db
   \<and> (\<forall>r db'. start_session db current_user now vplate zid = Inr (r, db') \<longrightarrow>
         get_zone db zid \<noteq> None)
   \<and> stop_session (parked 3) demo_user 240000000 1 = Inl AttributeError"
proof -
  have inv: "\<forall>p \<in> set (parking_sessions db). get_zone db (session_zone_id p) \<noteq> None"
    if "reachable db"
    using that by (rule reachable_session_zones)
  have safe: "stop_session db current_user now sid \<noteq> Inl AttributeError" if r: "reachable db"
  proof
    assume "stop_session db current_user now sid = Inl AttributeError"
    then obtain p where p: "get_parking_session db sid = Some p"
      and z: "get_zone db (session_zone_id p) = None"
      by (auto dest: stop_session_AttributeError)
    from p have "p \<in> set (parking_sessions db)"
      by (auto simp: get_parking_session_def dest: first_filter_SomeD)
    with inv [OF r] z show False by blast
  qed
  have start: "get_zone db zid \<noteq> None"
    if "start_session db current_user now vplate zid = Inr (r, db')" for r db'
    using start_session_InrD [OF that] by auto
  have unguarded: "stop_session (parked 3) demo_user 240000000 1 = Inl AttributeError"
    by (simp add: eval_defs)
  from inv safe zones_handle [of db key now req] start unguarded show ?thesis
    by blast
qed

theorem stop_session_zone_present_witness:
  "reachable (parked 1)
   \<and> get_zone (parked 1) 1
       = Some \<lparr>zone_id = 1, name = ''A'', rate_per_min = 3 / 2, max_minutes = 120\<rparr>
   \<and> (\<exists>r. stop_session (parked 1) demo_user 240000000 1 = Inr (r, stopped))
   \<and> stop_session (parked 1) demo_user 240000000 1 \<noteq> Inl AttributeError
   \<and> (\<exists>r. start_session registered demo_user 0 ''ABC-123'' 1 = Inr (r, parked 1))
   \<and> get_zone registered 1 \<noteq> None"
proof -
  note inst = stop_session_zone_present [of "parked 1" demo_user 240000000 1]
  from inst parked_reachable
  have 1: "stop_session (parked 1) demo_user 240000000 1 \<noteq> Inl AttributeError"
    by blast
  from stop_session_zone_present [where db = registered and current_user = demo_user
      and now = 0 and vplate = "''ABC-123''" and zid = 1]
    parked_start
  have 2: "get_zone registered 1 \<noteq> None"
    by blast
  have 3: "get_zone (parked 1) 1
       = Some \<lparr>zone_id = 1, name = ''A'', rate_per_min = 3 / 2, max_minutes = 120\<rparr>"
    by (simp add: eval_defs)
  show ?thesis
    using parked_reachable 1 2 3 stopped_stop parked_start by simp
qed

section \<open>Balances\<close>

lemma billing_assigns_balance:
  assumes "billing z b m = Inr (c, ct, st, Some nb)"
  shows "st = ''completed'' \<and> \<not> b < c \<and> nb = b - c \<and> 3 < m
       \<and> (\<exists>zn. z = Some zn \<and> c = of_int m * rate_per_min zn \<and> m \<le> max_minutes zn)"
  using assms by (auto simp: billing_def Let_def split: if_splits option.splits)

lemma set_balance_nonneg:
  assumes "\<forall>u \<in> set us. 0 \<le> balance u" and "\<And>x. nb = Some x \<Longrightarrow> 0 \<le> x"
  shows "\<forall>u \<in> set (set_balance uid nb us). 0 \<le> balance u"
  using assms by (cases nb) (auto simp: set_balance_def)

lemma get_current_user_set_balance:
  assumes "get_current_user db key = Inr cu"
  shows "get_current_user (db\<lparr>parking_sessions := ps,
                              users := set_balance (user_id cu) (Some x) (users db)\<rparr>) key
         = Inr (cu\<lparr>balance := x\<rparr>)"
proof -
  let ?f = "\<lambda>u. if user_id u = user_id cu then u\<lparr>balance := x\<rparr> else u"
  from assms have key: "key \<noteq> []"
    and cu: "first (filter (\<lambda>u. api_key u = key) (users db)) = Some cu"
    by (auto simp: get_current_user_def split: if_splits option.splits)
  have "first (filter (\<lambda>u. api_key u = key) (map ?f (users db)))
          = map_option ?f (first (filter (\<lambda>u. api_key u = key) (users db)))"
    by (rule first_filter_map) simp
  with key cu show ?thesis
    by (simp add: get_current_user_def set_balance_def)
qed

lemma stop_session_users:
  assumes "stop_session db cu now sid = Inr (r, db')"
  shows "\<exists>p c ct nb.
           get_parking_session db sid = Some p
         \<and> billing (get_zone db (session_zone_id p)) (balance cu)
             \<lceil>total_seconds (now - started_at p) / 60\<rceil> = Inr (c, ct, resp_status r, nb)
         \<and> resp_cost r = Some c
         \<and> users db' = set_balance (user_id cu) nb (users db)
         \<and> (\<forall>key x. nb = Some x \<longrightarrow> get_current_user db key = Inr cu \<longrightarrow>
                get_current_user db' key = Inr (cu\<lparr>balance := x\<rparr>))"
proof -
  from stop_session_InrD [OF assms] obtain p c ct st nb where
    all: "get_parking_session db sid = Some p \<and> session_user_id p = user_id cu \<and>
           status p = ''active'' \<and>
           billing (get_zone db (session_zone_id p)) (balance cu)
             \<lceil>total_seconds (now - started_at p) / 60\<rceil> = Inr (c, ct, st, nb) \<and>
           r = SessionResponse
                 (finalize now \<lceil>total_seconds (now - started_at p) / 60\<rceil> c st p)
                 (if st = ''fined'' then Some ct else None) \<and>
           db' = db\<lparr>parking_sessions :=
                      map (\<lambda>q. if session_id q = session_id p
                               then finalize now \<lceil>total_seconds (now - started_at p) / 60\<rceil> c st q
                               else q) (parking_sessions db),
                    users := set_balance (user_id cu) nb (users db)\<rparr>"
    by (elim exE)
  then have st: "resp_status r = st" and c: "resp_cost r = Some c"
    by (simp_all add: SessionResponse_def finalize_def)
  from all have us: "users db' = set_balance (user_id cu) nb (users db)"
    by simp
  have auth: "get_current_user db' key = Inr (cu\<lparr>balance := x\<rparr>)"
    if "nb = Some x" "get_current_user db key = Inr cu" for key x
    using all that by (simp add: get_current_user_set_balance)
  from all st
  have b: "billing (get_zone db (session_zone_id p)) (balance cu)
             \<lceil>total_seconds (now - started_at p) / 60\<rceil> = Inr (c, ct, resp_status r, nb)"
    by simp
  from all have p: "get_parking_session db sid = Some p"
    by simp
  from auth have auth': "\<forall>key x. nb = Some x \<longrightarrow> get_current_user db key = Inr cu \<longrightarrow>
                get_current_user db' key = Inr (cu\<lparr>balance := x\<rparr>)"
    by simp
  from p b c us auth'
  have "get_parking_session db sid = Some p
         \<and> billing (get_zone db (session_zone_id p)) (balance cu)
             \<lceil>total_seconds (now - started_at p) / 60\<rceil> = Inr (c, ct, resp_status r, nb)
         \<and> resp_cost r = Some c
         \<and> users db' = set_balance (user_id cu) nb (users db)
         \<and> (\<forall>key x. nb = Some x \<longrightarrow> get_current_user db key = Inr cu \<longrightarrow>
                get_current_user db' key = Inr (cu\<lparr>balance := x\<rparr>))"
    by (intro conjI)
  then show ?thesis
    by (intro exI)
qed

lemma stop_session_nonneg:
  assumes "stop_session db cu now sid = Inr (r, db')"
    and "\<forall>u \<in> set (users db). 0 \<le> balance u"
  shows "\<forall>u \<in> set (users db'). 0 \<le> balance u"
proof -
  from stop_session_users [OF assms(1)] obtain z m c ct nb where
    b: "billing z (balance cu) m = Inr (c, ct, resp_status r, nb)"
    and us: "users db' = set_balance (user_id cu) nb (users db)"
    by blast
  have "0 \<le> x" if "nb = Some x" for x
    using billing_assigns_balance [of z "balance cu" m c ct "resp_status r" x] b that
    by simp
  with assms(2) show ?thesis
    unfolding us by (rule set_balance_nonneg)
qed

lemma handle_nonneg:
  assumes "\<forall>u \<in> set (users db). 0 \<le> balance u"
  shows "\<forall>u \<in> set (users (handle db key now req)). 0 \<le> balance u"
proof (cases rule: handle_cases [of db key now req])
  case unchanged
  with assms show ?thesis by simp
next
  case (created cu vplate v db')
  from create_vehicle_InrD [OF created(3)] created(4) assms show ?thesis by simp
next
  case (started cu vplate zid r db')
  from start_session_InrD [OF started(3)] started(4) assms show ?thesis by auto
next
  case (stopped cu sid r db')
  from stop_session_nonneg [OF stopped(3) assms] stopped(4) show ?thesis by simp
qed

lemma run_nonneg:
  "\<forall>u \<in> set (users db). 0 \<le> balance u \<Longrightarrow> \<forall>u \<in> set (users (run db reqs)). 0 \<le> balance u"
proof (induction reqs arbitrary: db)
  case Nil
  then show ?case by simp
next
  case (Cons a reqs)
  obtain key now req where a: "a = (key, now, req)" by (cases a)
  from Cons.prems have "\<forall>u \<in> set (users (handle db key now req)). 0 \<le> balance u"
    by (rule handle_nonneg)
  then have "\<forall>u \<in> set (users (run (handle db key now req) reqs)). 0 \<le> balance u"
    by (rule Cons.IH)
  then show ?case by (simp add: a)
qed

lemma deposit_to_wallet_database_session:
  "deposit_to_wallet db DatabaseSession cu amount =
     (if amount \<le> 0 then Inl NonPositiveAmount
      else Inr (balance cu + amount,
                db\<lparr>users := set_balance (user_id cu) (Some (balance cu + amount)) (users db)\<rparr>))"
  by (simp add: deposit_to_wallet_def Let_def)

lemma deposit_to_wallet_InrD:
  assumes "deposit_to_wallet db s cu amount = Inr (b, db')"
  shows "0 < amount \<and> b = balance cu + amount
       \<and> users db' = set_balance (user_id cu) (Some (balance cu + amount)) (users db)"
  using assms
  by (auto simp: deposit_to_wallet_def Let_def split: if_splits session_dependency.splits)

lemma stopped_run:
  "run seed_data
     [(''testkey'', 0, CreateVehicle ''ABC-123''),
      (''testkey'', 0, StartSession ''ABC-123'' 1),
      (''testkey'', 240000000, StopSession 1)] = stopped"
proof -
  have "handle (parked 1) ''testkey'' 240000000 (StopSession 1) = stopped"
    by (simp add: eval_defs stopped_def)
  then show ?thesis
    by (simp add: parked_handle)
qed

text \<open>
  C6. A successful stop leaves the table of users as it is unless the session is
  finalized with status completed; when it changes the table, the status is completed,
  the cost \<open>minutes * rate_per_min\<close> is at most the balance, and the balance of the
  authenticated user becomes the balance minus the cost. So a fined or
  \<^verbatim>\<open>pending_payment\<close> stop never debits. \<open>deposit_to_wallet\<close> returns only for a positive
  amount, which it adds. Every request, and every sequence of requests, keeps all
  balances non-negative when they start non-negative.
\<close>

theorem balance_debited_only_on_completion:
  "(\<forall>r db'. stop_session db current_user now sid = Inr (r, db') \<longrightarrow>
       (resp_status r \<noteq> ''completed'' \<longrightarrow> users db' = users db)
     \<and> (users db' \<noteq> users db \<longrightarrow>
          resp_status r = ''completed''
          \<and> (\<exists>p z c. get_parking_session db sid = Some p
                \<and> get_zone db (session_zone_id p) = Some z
                \<and> c = of_int \<lceil>total_seconds (now - started_at p) / 60\<rceil> * rate_per_min z
                \<and> resp_cost r = Some c \<and> c \<le> balance current_user
                \<and> users db'
                    = set_balance (user_id current_user) (Some (balance current_user - c))
                        (users db)
                \<and> (\<forall>key. get_current_user db key = Inr current_user \<longrightarrow>
                      get_current_user db' key
                        = Inr (current_user\<lparr>balance := balance current_user - c\<rparr>)))))
   \<and> (\<forall>session b db'. deposit_to_wallet db session current_user amount = Inr (b, db') \<longrightarrow>
         0 < amount \<and> b = balance current_user + amount)
   \<and> ((\<forall>u \<in> set (users db). 0 \<le> balance u) \<longrightarrow>
         (\<forall>u \<in> set (users (handle db key now req)). 0 \<le> balance u))
   \<and> ((\<forall>u \<in> set (users db). 0 \<le> balance u) \<longrightarrow>
         (\<forall>u \<in> set (users (run db reqs)). 0 \<le> balance u))"
proof -
  have stop: "(resp_status r \<noteq> ''completed'' \<longrightarrow> users db' = users db)
     \<and> (users db' \<noteq> users db \<longrightarrow>
          resp_status r = ''completed''
          \<and> (\<exists>p z c. get_parking_session db sid = Some p
                \<and> get_zone db (session_zone_id p) = Some z
                \<and> c = of_int \<lceil>total_seconds (now - started_at p) / 60\<rceil> * rate_per_min z
                \<and> resp_cost r = Some c \<and> c \<le> balance current_user
                \<and> users db'
                    = set_balance (user_id current_user) (Some (balance current_user - c))
                        (users db)
                \<and> (\<forall>key. get_current_user db key = Inr current_user \<longrightarrow>
                      get_current_user db' key
                        = Inr (current_user\<lparr>balance := balance current_user - c\<rparr>))))"
    if s: "stop_session db current_user now sid = Inr (r, db')" for r db'
  proof -
    let ?m = "\<lambda>p. \<lceil>total_seconds (now - started_at p) / 60\<rceil>"
    from stop_session_users [OF s] obtain p c ct nb where
      p: "get_parking_session db sid = Some p"
      and b: "billing (get_zone db (session_zone_id p)) (balance current_user) (?m p)
                = Inr (c, ct, resp_status r, nb)"
      and c: "resp_cost r = Some c"
      and us: "users db' = set_balance (user_id current_user) nb (users db)"
      and auth: "\<forall>key x. nb = Some x \<longrightarrow> get_current_user db key = Inr current_user \<longrightarrow>
                   get_current_user db' key = Inr (current_user\<lparr>balance := x\<rparr>)"
      by blast
    show ?thesis
    proof (cases nb)
      case None
      with us show ?thesis by (simp add: set_balance_def)
    next
      case (Some x)
      from billing_assigns_balance [OF b [unfolded Some]] obtain z where
        st: "resp_status r = ''completed''" and le: "\<not> balance current_user < c"
        and x: "x = balance current_user - c"
        and z: "get_zone db (session_zone_id p) = Some z"
        and cz: "c = of_int (?m p) * rate_per_min z"
        by blast
      from le have le': "c \<le> balance current_user" by simp
      from us Some x
      have us': "users db' = set_balance (user_id current_user)
                               (Some (balance current_user - c)) (users db)"
        by simp
      from auth Some x
      have auth': "\<forall>key. get_current_user db key = Inr current_user \<longrightarrow>
                      get_current_user db' key
                        = Inr (current_user\<lparr>balance := balance current_user - c\<rparr>)"
        by simp
      from p z cz c le' us' auth'
      have "get_parking_session db sid = Some p
                \<and> get_zone db (session_zone_id p) = Some z
                \<and> c = of_int (?m p) * rate_per_min z
                \<and> resp_cost r = Some c \<and> c \<le> balance current_user
                \<and> users db'
                    = set_balance (user_id current_user) (Some (balance current_user - c))
                        (users db)
                \<and> (\<forall>key. get_current_user db key = Inr current_user \<longrightarrow>
                      get_current_user db' key
                        = Inr (current_user\<lparr>balance := balance current_user - c\<rparr>))"
        by (intro conjI)
      then have "\<exists>p z c. get_parking_session db sid = Some p
                \<and> get_zone db (session_zone_id p) = Some z
                \<and> c = of_int (?m p) * rate_per_min z
                \<and> resp_cost r = Some c \<and> c \<le> balance current_user
                \<and> users db'
                    = set_balance (user_id current_user) (Some (balance current_user - c))
                        (users db)
                \<and> (\<forall>key. get_current_user db key = Inr current_user \<longrightarrow>
                      get_current_user db' key
                        = Inr (current_user\<lparr>balance := balance current_user - c\<rparr>))"
        by (intro exI)
      with st show ?thesis by simp
    qed
  qed
  have deposit: "0 < amount \<and> b = balance current_user + amount"
    if "deposit_to_wallet db session current_user amount = Inr (b, db')" for session b db'
    using deposit_to_wallet_InrD [OF that] by simp
  have step: "(\<forall>u \<in> set (users db). 0 \<le> balance u) \<longrightarrow>
         (\<forall>u \<in> set (users (handle db key now req)). 0 \<le> balance u)"
    using handle_nonneg [of db key now req] by blast
  have steps: "(\<forall>u \<in> set (users db). 0 \<le> balance u) \<longrightarrow>
         (\<forall>u \<in> set (users (run db reqs)). 0 \<le> balance u)"
    using run_nonneg [of db reqs] by blast
  from stop have stop': "\<forall>r db'. stop_session db current_user now sid = Inr (r, db') \<longrightarrow>
       (resp_status r \<noteq> ''completed'' \<longrightarrow> users db' = users db)
     \<and> (users db' \<noteq> users db \<longrightarrow>
          resp_status r = ''completed''
          \<and> (\<exists>p z c. get_parking_session db sid = Some p
                \<and> get_zone db (session_zone_id p) = Some z
                \<and> c = of_int \<lceil>total_seconds (now - started_at p) / 60\<rceil> * rate_per_min z
                \<and> resp_cost r = Some c \<and> c \<le> balance current_user
                \<and> users db'
                    = set_balance (user_id current_user) (Some (balance current_user - c))
                        (users db)
                \<and> (\<forall>key. get_current_user db key = Inr current_user \<longrightarrow>
                      get_current_user db' key
                        = Inr (current_user\<lparr>balance := balance current_user - c\<rparr>))))"
    by (intro allI impI)
  from deposit
  have deposit': "\<forall>session b db'. deposit_to_wallet db session current_user amount = Inr (b, db') \<longrightarrow>
         0 < amount \<and> b = balance current_user + amount"
    by (intro allI impI)
  from stop' deposit' step steps show ?thesis
    by (intro conjI)
qed

theorem balance_debited_only_on_completion_witness:
  "(\<exists>r. stop_session (parked 1) demo_user 240000000 1 = Inr (r, stopped)
        \<and> resp_status r = ''completed'' \<and> resp_cost r = Some 6)
   \<and> users (parked 1) = [demo_user]
   \<and> users stopped = [demo_user\<lparr>balance := 294\<rparr>]
   \<and> get_current_user stopped ''testkey'' = Inr (demo_user\<lparr>balance := 300 - 6\<rparr>)
   \<and> deposit_to_wallet seed_data DatabaseSession demo_user 50
       = Inr (350, seed_data\<lparr>users := [demo_user\<lparr>balance := 350\<rparr>]\<rparr>)
   \<and> 0 \<le> balance demo_user
   \<and> 0 \<le> balance (demo_user\<lparr>balance := 294\<rparr>)
   \<and> run seed_data
        [(''testkey'', 0, CreateVehicle ''ABC-123''),
         (''testkey'', 0, StartSession ''ABC-123'' 1),
         (''testkey'', 240000000, StopSession 1)] = stopped"
proof -
  let ?reqs = "[(''testkey'', 0, CreateVehicle ''ABC-123''),
         (''testkey'', 0, StartSession ''ABC-123'' 1),
         (''testkey'', 240000000, StopSession 1)]"
  note inst = balance_debited_only_on_completion
    [where db = "parked 1" and current_user = demo_user and now = 240000000 and sid = 1]
  have changed: "users stopped \<noteq> users (parked 1)"
    by (simp add: stopped_def parked_def seed_data_def demo_user_def)
  have auth: "get_current_user (parked 1) ''testkey'' = Inr demo_user"
    by (simp add: eval_defs)
  from inst stopped_stop changed
  obtain c where c: "Some 6 = Some c"
    and debit: "\<forall>key. get_current_user (parked 1) key = Inr demo_user \<longrightarrow>
             get_current_user stopped key = Inr (demo_user\<lparr>balance := balance demo_user - c\<rparr>)"
    by fastforce
  from c debit auth
  have 1: "get_current_user stopped ''testkey'' = Inr (demo_user\<lparr>balance := 300 - 6\<rparr>)"
    by (auto simp: demo_user_def)
  have seed: "\<forall>u \<in> set (users seed_data). 0 \<le> balance u"
    by (simp add: seed_data_def)
  from balance_debited_only_on_completion [where db = seed_data and reqs = ?reqs] seed
  have "\<forall>u \<in> set (users (run seed_data ?reqs)). 0 \<le> balance u"
    by blast
  then have 2: "0 \<le> balance (demo_user\<lparr>balance := 294\<rparr>)"
    by (simp add: stopped_run stopped_def)
  have 3: "deposit_to_wallet seed_data DatabaseSession demo_user 50
       = Inr (350, seed_data\<lparr>users := [demo_user\<lparr>balance := 350\<rparr>]\<rparr>)"
    by (simp add: eval_defs)
  have 4: "users (parked 1) = [demo_user]" "users stopped = [demo_user\<lparr>balance := 294\<rparr>]"
    "0 \<le> balance demo_user"
    by (simp_all add: stopped_def parked_def seed_data_def demo_user_def)
  show ?thesis
    using 1 2 3 4 stopped_stop stopped_run by simp
qed

section \<open>The deposit route\<close>

text \<open>
  C9 holds of the body of \<open>deposit_to_wallet\<close> when it is given a database session
  (\<open>deposit_to_wallet_database_session\<close>), but not of the route
  \<^verbatim>\<open>POST /wallet/deposit\<close>, whose \<^verbatim>\<open>session\<close> is the result of the endpoint
  \<^verbatim>\<open>get_session\<close> of line 250. A deposit of 50 by the seeded user is refused with 422
  when the request has no query parameter \<^verbatim>\<open>session_id\<close>; with the \<^verbatim>\<open>session_id\<close> of a
  session of the user it raises \<^verbatim>\<open>AttributeError\<close> at \<^verbatim>\<open>session.add\<close> (500), and with
  another \<^verbatim>\<open>session_id\<close> it answers 404 or 403. In each case the store is unchanged:
  the route never commits a deposit (\<open>post_wallet_deposit_fails\<close>). The last conjunct
  is what the body does with a database session.
\<close>

theorem deposit_never_commits:
  "post_wallet_deposit seed_data demo_user None 50 = Inl RequestValidationError
   \<and> handle seed_data ''testkey'' 0 (WalletDeposit None 50) = seed_data
   \<and> get_session (parked 1) demo_user 1
       = Inr \<lparr>resp_id = 1, resp_user_id = 1, resp_vehicle_id = 1, resp_zone_id = 1,
              resp_started_at = 0, resp_ended_at = None, resp_minutes = None,
              resp_cost = None, resp_status = ''active'', resp_cost_total = None\<rparr>
   \<and> post_wallet_deposit (parked 1) demo_user (Some 1) 50 = Inl AttributeError
   \<and> handle (parked 1) ''testkey'' 0 (WalletDeposit (Some 1) 50) = parked 1
   \<and> post_wallet_deposit (parked 1) demo_user (Some 7) 50 = Inl ViewSessionNotFound
   \<and> deposit_to_wallet seed_data DatabaseSession demo_user 50
       = Inr (350, seed_data\<lparr>users := [demo_user\<lparr>balance := 350\<rparr>]\<rparr>)"
  by (simp add: eval_defs)

end
